theory Spec2Isabelle
  imports Main "HOL-Library.Word" "HOL-Library.Sublist"
begin

section \<open>JavaScript strings\<close>

text \<open>
  A JavaScript string is a sequence of UTF-16 code units.  The customer dashboard only
  concatenates strings, takes their \<^verbatim>\<open>length\<close>, tests them for truthiness (a string is
  falsy exactly when it is empty) and calls \<^verbatim>\<open>trim()\<close> on them.
\<close>

type_synonym code_unit = "16 word"
type_synonym jsstring = "code_unit list"

definition js :: "string \<Rightarrow> jsstring" where
  "js cs = map of_char cs"

text \<open>
  \<^verbatim>\<open>String.prototype.trim\<close> removes ECMAScript WhiteSpace and LineTerminator code points
  from both ends; every one of them is a single code unit.
\<close>

definition is_js_whitespace :: "code_unit \<Rightarrow> bool" where
  "is_js_whitespace c \<longleftrightarrow>
     c = 0x0009 \<or> c = 0x000A \<or> c = 0x000B \<or> c = 0x000C \<or> c = 0x000D \<or> c = 0x0020 \<or>
     c = 0x00A0 \<or> c = 0x1680 \<or> (0x2000 \<le> c \<and> c \<le> 0x200A) \<or> c = 0x2028 \<or>
     c = 0x2029 \<or> c = 0x202F \<or> c = 0x205F \<or> c = 0x3000 \<or> c = 0xFEFF"

definition trim :: "jsstring \<Rightarrow> jsstring" where
  "trim s = rev (dropWhile is_js_whitespace (rev (dropWhile is_js_whitespace s)))"

text \<open>
  Values read from an event payload or from a \<^verbatim>\<open>window\<close> property may be
  \<^verbatim>\<open>undefined\<close>; \<open>None\<close> stands for that.  Such a value is truthy when it is a
  string that is not empty.  \<open>or_default x d\<close> is \<^verbatim>\<open>x || d\<close>.
\<close>

fun or_default :: "jsstring option \<Rightarrow> jsstring \<Rightarrow> jsstring" where
  "or_default None d = d"
| "or_default (Some v) d = (if v = [] then d else v)"

text \<open>
  \<^verbatim>\<open>Date.now()\<close> is the number of milliseconds since the epoch, an integer; for a clock
  set after 1970 it is a natural number, and a template literal renders it in decimal
  digits.
\<close>

definition digit :: "nat \<Rightarrow> code_unit" where
  "digit d = of_nat (48 + d)"

fun dec :: "nat \<Rightarrow> jsstring" where
  "dec n = (if n < 10 then [digit n] else dec (n div 10) @ [digit (n mod 10)])"

declare dec.simps [simp del]

text \<open>\<^verbatim>\<open>String(n).padStart(2, '0')\<close>\<close>

definition padStart2 :: "jsstring \<Rightarrow> jsstring" where
  "padStart2 s = replicate (2 - length s) (digit 0) @ s"

text \<open>\<^verbatim>\<open>formatVoiceTime(seconds)\<close>, on a whole number of seconds.\<close>

definition formatVoiceTime :: "nat \<Rightarrow> jsstring" where
  "formatVoiceTime seconds =
     padStart2 (dec (seconds div 60)) @ js '':'' @ padStart2 (dec (seconds mod 60))"

section \<open>Room identifiers of a transfer attempt\<close>

text \<open>
  The customer dashboard's \<^verbatim>\<open>transfer_call\<close> handler builds
  \<^verbatim>\<open>`webrtc_${data.session_id}_${Date.now()}`\<close>; \<^verbatim>\<open>handleCallTransfer\<close> of the voice page
  builds \<^verbatim>\<open>`bsmart${data.session_id}${Date.now()}`\<close>.
\<close>

definition roomName_webrtc :: "jsstring \<Rightarrow> nat \<Rightarrow> jsstring" where
  "roomName_webrtc session_id now = js ''webrtc_'' @ session_id @ js ''_'' @ dec now"

definition roomName_bsmart :: "jsstring \<Rightarrow> nat \<Rightarrow> jsstring" where
  "roomName_bsmart session_id now = js ''bsmart'' @ session_id @ dec now"

section \<open>The customer dashboard's voice call: data\<close>

text \<open>
  Session descriptions and ICE candidates are opaque payloads that the page only passes
  on; they are modelled as tokens.  Candidates are taken to be well-formed initialisers,
  so that \<^verbatim>\<open>new RTCIceCandidate(candidate)\<close> does not throw.
\<close>

type_synonym sdp = nat
type_synonym candidate = nat

datatype toast_type = Info | Success | Warning | Error

text \<open>One constructor per event name that the page passes to \<^verbatim>\<open>voiceSocket.emit\<close>.\<close>

datatype emission =
    Start_call jsstring jsstring
  | User_message jsstring
  | End_call
  | Agent_transfer_room jsstring jsstring jsstring
  | Webrtc_offer jsstring sdp jsstring
  | Webrtc_ice_candidate jsstring candidate jsstring
  | Webrtc_hangup jsstring jsstring
  | Call_transcript jsstring jsstring jsstring jsstring

text \<open>
  A transcript entry is the \<^verbatim>\<open>div\<close> appended to a transcript element.  Its markup is
  determined by the speaker and the text (the transfer transcript also prints the wall
  clock); the model keeps the speaker and the text.
\<close>

record transcript_entry =
  entry_speaker :: jsstring
  entry_text :: jsstring

record socket =
  connected :: bool

datatype conn_state = New | Connecting | Connected | Disconnected | Failed | Closed

text \<open>
  An \<^verbatim>\<open>RTCPeerConnection\<close>.  \<open>pc_id\<close> is the identity of the object (the number of
  connections created before it); \<open>pc_agent\<close> and \<open>pc_session\<close> are the arguments of
  \<^verbatim>\<open>startWebRTCCall\<close> that its handlers close over; \<open>iceAdded\<close> lists the arguments of
  the \<^verbatim>\<open>addIceCandidate\<close> calls made on it, in call order.
\<close>

record pc =
  pc_id :: nat
  pc_agent :: jsstring
  pc_session :: jsstring
  pc_streams :: "nat list"
  localDescription :: "sdp option"
  remoteDescription :: "sdp option"
  connectionState :: conn_state
  iceAdded :: "candidate list"

datatype track_state = Live | Stopped

text \<open>The recogniser of the transfer call, with the arguments its handlers close over.\<close>

record transfer_recognizer =
  tr_session :: jsstring
  tr_agent :: jsstring
  tr_running :: bool

text \<open>One element of \<^verbatim>\<open>event.results\<close>: the first alternative's transcript and \<^verbatim>\<open>isFinal\<close>.\<close>

record speech_result =
  transcript :: jsstring
  isFinal :: bool

text \<open>
  An asynchronous function is suspended at an \<^verbatim>\<open>await\<close> (or a callback waits for its
  promise or timer); a task records where, with the local variables that are live there.
\<close>

datatype task =
    StartMic
  | WebRTCMic jsstring jsstring
  | CreateOffer jsstring jsstring
  | SetLocal jsstring jsstring sdp nat
  | SetRemote nat sdp
  | Flush nat nat
  | RemoveTranscript

text \<open>
  How a promise settles.  The value of \<open>Resolved\<close> is the offer for \<^verbatim>\<open>createOffer\<close> and
  is ignored otherwise; \<open>Rejected\<close> carries \<^verbatim>\<open>error.message\<close>.
\<close>

datatype outcome = Resolved nat | Rejected jsstring

text \<open>
  The page: its module-level variables, the \<^verbatim>\<open>window\<close> properties it uses, the objects
  those name, the transcript elements, and what it has emitted and shown so far.
  \<^item> \<open>has_mediaDevices\<close>, \<open>has_speech\<close>: whether the browser provides
    \<^verbatim>\<open>navigator.mediaDevices.getUserMedia\<close> and a \<^verbatim>\<open>SpeechRecognition\<close> constructor.
  \<^item> \<open>voiceRecognition\<close>: \<open>None\<close> is \<^verbatim>\<open>null\<close>, \<open>Some b\<close> a recogniser that is
    listening iff \<open>b\<close>.  \<open>voiceTimerInterval\<close>: whether an interval is set.
  \<^item> \<open>streams\<close>: every \<^verbatim>\<open>MediaStream\<close> that \<^verbatim>\<open>getUserMedia\<close> has handed out, by
    number, with the state of its tracks.  \<open>localStream\<close> names one of them.
  \<^item> \<open>arrays\<close>: the array objects; \<open>pendingIceCandidates\<close> names one of them.
  \<^item> \<open>transfer_transcript\<close>: \<open>None\<close> when the page has no
    \<^verbatim>\<open>#transfer-transcript\<close> element.  \<open>agent_status\<close>: the text of
    \<^verbatim>\<open>.agent-details .agent-status\<close>, \<open>None\<close> when there is no such element.
  The elements of the static page (\<^verbatim>\<open>#voice-transcript\<close>, the form, the buttons) exist.
\<close>

record client =
  has_mediaDevices :: bool
  has_speech :: bool
  voiceSocket :: "socket option"
  voiceCallActive :: bool
  voiceTimerInterval :: bool
  voiceRecognition :: "bool option"
  voiceIsMuted :: bool
  voiceUserName :: jsstring
  voiceUserPhone :: jsstring
  finalTranscript :: jsstring
  transferSessionId :: "jsstring option"
  transferReason :: "jsstring option"
  agentSocketId :: "jsstring option"
  peerConnection :: "pc option"
  pcs_created :: nat
  localStream :: "nat option"
  streams :: "track_state list"
  pendingIceCandidates :: nat
  arrays :: "nat \<Rightarrow> candidate list"
  next_array :: nat
  transferRecognition :: "transfer_recognizer option"
  voice_transcript :: "transcript_entry list"
  transfer_transcript :: "transcript_entry list option"
  agent_status :: "jsstring option"
  emitted :: "emission list"
  toasts :: "(toast_type \<times> jsstring) list"
  tasks :: "nat \<Rightarrow> task option"
  next_task :: nat

section \<open>The customer dashboard's voice call: functions\<close>

text \<open>
  Every function takes the page and returns the page it leaves.  Console output, styling,
  audio playback, the call timer's display and the timeout that hides a toast again are
  not part of the model.
\<close>

definition showToast :: "jsstring \<Rightarrow> toast_type \<Rightarrow> client \<Rightarrow> client" where
  "showToast message ty s = s\<lparr>toasts := toasts s @ [(ty, message)]\<rparr>"

text \<open>
  \<^verbatim>\<open>voiceSocket.emit(...)\<close> on a socket object.  Where \<^verbatim>\<open>voiceSocket\<close> may be
  \<^verbatim>\<open>null\<close> the caller below models the \<^verbatim>\<open>TypeError\<close>.
\<close>

definition emit :: "emission \<Rightarrow> client \<Rightarrow> client" where
  "emit e s = s\<lparr>emitted := emitted s @ [e]\<rparr>"

text \<open>\<^verbatim>\<open>if (agentStatus) agentStatus.textContent = t\<close>\<close>

definition set_agent_status :: "jsstring \<Rightarrow> client \<Rightarrow> client" where
  "set_agent_status t s =
     (case agent_status s of None \<Rightarrow> s | Some _ \<Rightarrow> s\<lparr>agent_status := Some t\<rparr>)"

definition spawn :: "task \<Rightarrow> client \<Rightarrow> client" where
  "spawn t s = s\<lparr>tasks := (tasks s)(next_task s \<mapsto> t), next_task := Suc (next_task s)\<rparr>"

definition suspend :: "nat \<Rightarrow> task \<Rightarrow> client \<Rightarrow> client" where
  "suspend tid t s = s\<lparr>tasks := (tasks s)(tid \<mapsto> t)\<rparr>"

subsection \<open>Transcripts\<close>

definition addVoiceTranscript :: "jsstring \<Rightarrow> jsstring \<Rightarrow> client \<Rightarrow> client" where
  "addVoiceTranscript sp tx s =
     s\<lparr>voice_transcript := voice_transcript s @ [\<lparr>entry_speaker = sp, entry_text = tx\<rparr>]\<rparr>"

definition showTransferTranscript :: "client \<Rightarrow> client" where
  "showTransferTranscript s =
     (case transfer_transcript s of Some _ \<Rightarrow> s | None \<Rightarrow> s\<lparr>transfer_transcript := Some []\<rparr>)"

definition addTransferTranscriptEntry :: "jsstring \<Rightarrow> jsstring \<Rightarrow> client \<Rightarrow> client" where
  "addTransferTranscriptEntry sp tx s =
     (case transfer_transcript s of
        None \<Rightarrow> s
      | Some es \<Rightarrow>
          s\<lparr>transfer_transcript := Some (es @ [\<lparr>entry_speaker = sp, entry_text = tx\<rparr>])\<rparr>)"

subsection \<open>Starting a call\<close>

text \<open>
  \<^verbatim>\<open>startVoiceCall\<close>, given the values of the name and phone inputs.  Without
  \<^verbatim>\<open>navigator.mediaDevices\<close> the call of \<^verbatim>\<open>getUserMedia\<close> throws after the two
  assignments.
\<close>

definition startVoiceCall :: "jsstring \<Rightarrow> jsstring \<Rightarrow> client \<Rightarrow> client" where
  "startVoiceCall name_value phone_value s =
     (if trim name_value = [] then showToast (js ''Please enter your name'') Error s
      else if trim phone_value = [] \<or> length phone_value < 10
        then showToast (js ''Please enter a valid 10-digit mobile number'') Error s
      else
        (let s1 = s\<lparr>voiceUserName := trim name_value, voiceUserPhone := trim phone_value\<rparr>
         in if has_mediaDevices s1 then spawn StartMic s1 else s1))"

text \<open>
  \<^verbatim>\<open>initVoiceCall\<close> creates the socket, which connects later, registers the handlers
  below and assigns a new empty array to \<^verbatim>\<open>window.pendingIceCandidates\<close>.
\<close>

definition initVoiceCall :: "client \<Rightarrow> client" where
  "initVoiceCall s =
     s\<lparr>voiceSocket := Some \<lparr>connected = False\<rparr>,
       pendingIceCandidates := next_array s,
       arrays := (arrays s)(next_array s := []),
       next_array := Suc (next_array s)\<rparr>"

definition initSpeechRecognition :: "client \<Rightarrow> client" where
  "initSpeechRecognition s =
     (if \<not> has_speech s
      then showToast
        (js ''Speech recognition not supported in this browser. Use Chrome for best experience.'')
        Warning s
      else s\<lparr>voiceRecognition := Some True, finalTranscript := []\<rparr>)"

definition on_connect :: "client \<Rightarrow> client" where
  "on_connect s = emit (Start_call (voiceUserName s) (voiceUserPhone s)) s"

definition on_call_started :: "jsstring \<Rightarrow> client \<Rightarrow> client" where
  "on_call_started greeting s =
     (let s1 = s\<lparr>voiceCallActive := True, voice_transcript := []\<rparr>;
          s2 = addVoiceTranscript (js ''agent'') greeting s1;
          s3 = s2\<lparr>voiceTimerInterval := True\<rparr>;
          s4 = initSpeechRecognition s3
      in showToast (js ''Call connected!'') Success s4)"

definition on_agent_response :: "jsstring \<Rightarrow> client \<Rightarrow> client" where
  "on_agent_response tx s = addVoiceTranscript (js ''agent'') tx s"

subsection \<open>The AI-phase recogniser\<close>

text \<open>
  One iteration of the loop in \<^verbatim>\<open>voiceRecognition.onresult\<close>.  \<^verbatim>\<open>interimTranscript\<close>
  is a local variable that nothing reads.
\<close>

definition voice_result :: "speech_result \<Rightarrow> client \<Rightarrow> client" where
  "voice_result r s =
     (if isFinal r then
        (let s1 = s\<lparr>finalTranscript := transcript r\<rparr> in
         case voiceSocket s1 of
           None \<Rightarrow> s1
         | Some sock \<Rightarrow>
             if connected sock \<and> trim (finalTranscript s1) \<noteq> [] then
               (let s2 = addVoiceTranscript (js ''customer'') (trim (finalTranscript s1)) s1;
                    s3 = emit (User_message (trim (finalTranscript s2))) s2
                in s3\<lparr>finalTranscript := []\<rparr>)
             else s1)
      else s)"

text \<open>\<^verbatim>\<open>for (let i = event.resultIndex; i < event.results.length; i++)\<close>\<close>

definition voice_onresult :: "speech_result list \<Rightarrow> nat \<Rightarrow> client \<Rightarrow> client" where
  "voice_onresult results resultIndex s = fold voice_result (drop resultIndex results) s"

definition toggleVoiceMute :: "client \<Rightarrow> client" where
  "toggleVoiceMute s =
     (let s1 = s\<lparr>voiceIsMuted := \<not> voiceIsMuted s\<rparr> in
      if voiceIsMuted s1 then
        showToast (js ''Microphone muted'') Info
          (s1\<lparr>voiceRecognition := map_option (\<lambda>_. False) (voiceRecognition s1)\<rparr>)
      else
        showToast (js ''Microphone unmuted'') Info
          (if voiceCallActive s1
           then s1\<lparr>voiceRecognition := map_option (\<lambda>_. True) (voiceRecognition s1)\<rparr>
           else s1))"

subsection \<open>Ending a call\<close>

text \<open>
  \<^verbatim>\<open>cleanupVoiceCall\<close>.  The page never assigns \<^verbatim>\<open>window.currentJitsiApi\<close>, so that
  branch does not run.  \<^verbatim>\<open>voiceSocket.disconnect()\<close> fires the socket's
  \<^verbatim>\<open>disconnect\<close> handler at once, which finds \<^verbatim>\<open>voiceCallActive\<close> false and does
  nothing.
\<close>

definition cleanupVoiceCall :: "client \<Rightarrow> client" where
  "cleanupVoiceCall s =
     s\<lparr>voiceCallActive := False,
       voiceRecognition := None,
       voiceTimerInterval := False,
       voiceSocket := None,
       voiceIsMuted := False\<rparr>"

definition endVoiceCall :: "client \<Rightarrow> client" where
  "endVoiceCall s =
     cleanupVoiceCall
       (case voiceSocket s of
          None \<Rightarrow> s
        | Some sock \<Rightarrow> if connected sock then emit End_call s else s)"

text \<open>
  The \<^verbatim>\<open>call_ended\<close> handler, given \<^verbatim>\<open>data.duration_seconds\<close>.  The score toast,
  the feedback modal and the refresh of the call log that it schedules are not modelled.
\<close>

definition on_call_ended :: "nat option \<Rightarrow> client \<Rightarrow> client" where
  "on_call_ended duration_seconds s =
     showToast
       (js ''Call ended. Duration: '' @
        formatVoiceTime (case duration_seconds of None \<Rightarrow> 0 | Some d \<Rightarrow> d))
       Info (cleanupVoiceCall s)"

definition on_error :: "jsstring \<Rightarrow> client \<Rightarrow> client" where
  "on_error message s = showToast (js ''Error: '' @ message) Error s"

definition on_no_agents_available :: "jsstring option \<Rightarrow> client \<Rightarrow> client" where
  "on_no_agents_available message s =
     set_agent_status (js ''Waiting for agent...'')
       (showToast (or_default message (js ''All agents are busy. Please wait...'')) Warning s)"

definition on_disconnect :: "client \<Rightarrow> client" where
  "on_disconnect s =
     (if voiceCallActive s
      then showToast (js ''Call disconnected'') Warning (cleanupVoiceCall s)
      else s)"

subsection \<open>Transfer to a live agent\<close>

text \<open>
  The \<^verbatim>\<open>transfer_call\<close> handler, given \<^verbatim>\<open>data.session_id\<close>, \<^verbatim>\<open>data.reason\<close>,
  \<^verbatim>\<open>data.message\<close> and the value that \<^verbatim>\<open>Date.now()\<close> returns in it.  The payload it
  emits carries the room name twice, as \<^verbatim>\<open>room_url\<close> and as \<^verbatim>\<open>room_name\<close>.
\<close>

definition on_transfer_call ::
  "jsstring \<Rightarrow> jsstring \<Rightarrow> jsstring option \<Rightarrow> nat \<Rightarrow> client \<Rightarrow> client" where
  "on_transfer_call session_id reason message now s =
     (let s1 = showToast (or_default message (js ''Connecting to live agent...'')) Info s;
          s2 = s1\<lparr>transferSessionId := Some session_id, transferReason := Some reason\<rparr>;
          s3 = s2\<lparr>voiceRecognition := None\<rparr>;
          s4 = set_agent_status (js ''Finding available agent...'') s3;
          s5 = showTransferTranscript s4
      in emit (Agent_transfer_room (roomName_webrtc session_id now) session_id reason) s5)"

text \<open>
  \<^verbatim>\<open>startWebRTCCall\<close> up to its first \<^verbatim>\<open>await\<close>: it asks for the microphone and is
  suspended until \<^verbatim>\<open>getUserMedia\<close> settles.
\<close>

definition startWebRTCCall :: "jsstring \<Rightarrow> jsstring \<Rightarrow> client \<Rightarrow> client" where
  "startWebRTCCall agentSocketId' sessionId s =
     (if \<not> has_mediaDevices s then
        set_agent_status (js ''Connection error - need HTTPS'')
          (showToast
             (js ''Microphone access requires a secure connection (localhost or HTTPS)'')
             Error s)
      else spawn (WebRTCMic agentSocketId' sessionId) s)"

text \<open>
  The \<^verbatim>\<open>agent_ready_for_call\<close> handler, given \<^verbatim>\<open>data.agent_id\<close>,
  \<^verbatim>\<open>data.agent_sid\<close> and \<^verbatim>\<open>data.session_id\<close>.
\<close>

definition on_agent_ready_for_call ::
  "jsstring option \<Rightarrow> jsstring \<Rightarrow> jsstring \<Rightarrow> client \<Rightarrow> client" where
  "on_agent_ready_for_call agent_id agent_sid session_id s =
     (case peerConnection s of
        Some _ \<Rightarrow> s
      | None \<Rightarrow>
          (let s1 = showToast (js ''Agent connected! Starting voice call...'') Success s;
               s2 = set_agent_status
                      (js ''Connected to '' @ or_default agent_id (js ''Agent'')) s1;
               s3 = s2\<lparr>agentSocketId := Some agent_sid, transferSessionId := Some session_id\<rparr>
           in startWebRTCCall agent_sid session_id s3))"

text \<open>
  The \<^verbatim>\<open>webrtc_answer\<close> handler up to its \<^verbatim>\<open>await\<close>: it calls
  \<^verbatim>\<open>setRemoteDescription\<close> on the connection that \<^verbatim>\<open>window.peerConnection\<close> names.
\<close>

definition on_webrtc_answer :: "sdp option \<Rightarrow> client \<Rightarrow> client" where
  "on_webrtc_answer answer s =
     (case peerConnection s of
        None \<Rightarrow> s
      | Some p \<Rightarrow>
          (case answer of None \<Rightarrow> s | Some a \<Rightarrow> spawn (SetRemote (pc_id p) a) s))"

text \<open>\<^verbatim>\<open>window.pendingIceCandidates.push(c)\<close>\<close>

definition push_pending :: "candidate \<Rightarrow> client \<Rightarrow> client" where
  "push_pending c s =
     s\<lparr>arrays := (arrays s)
         (pendingIceCandidates s := arrays s (pendingIceCandidates s) @ [c])\<rparr>"

text \<open>\<^verbatim>\<open>window.peerConnection.addIceCandidate(new RTCIceCandidate(c))\<close> on connection \<open>p\<close>\<close>

definition addIceCandidate :: "pc \<Rightarrow> candidate \<Rightarrow> client \<Rightarrow> client" where
  "addIceCandidate p c s = s\<lparr>peerConnection := Some (p\<lparr>iceAdded := iceAdded p @ [c]\<rparr>)\<rparr>"

text \<open>
  The \<^verbatim>\<open>webrtc_ice_candidate\<close> handler.  Nothing follows its \<^verbatim>\<open>await\<close>, and a
  rejection is caught and logged.
\<close>

definition on_webrtc_ice_candidate :: "candidate option \<Rightarrow> client \<Rightarrow> client" where
  "on_webrtc_ice_candidate candidate s =
     (case candidate of
        None \<Rightarrow> s
      | Some c \<Rightarrow>
          (case peerConnection s of
             None \<Rightarrow> push_pending c s
           | Some p \<Rightarrow>
               if remoteDescription p \<noteq> None then addIceCandidate p c s
               else push_pending c s))"

text \<open>\<^verbatim>\<open>window.pendingIceCandidates = []\<close>\<close>

definition reset_pending :: "client \<Rightarrow> client" where
  "reset_pending s =
     s\<lparr>pendingIceCandidates := next_array s,
       arrays := (arrays s)(next_array s := []),
       next_array := Suc (next_array s)\<rparr>"

text \<open>
  The loop \<^verbatim>\<open>for (const candidate of window.pendingIceCandidates)\<close> of task \<open>tid\<close>, about
  to take element \<open>i\<close> of array \<open>a\<close>.  With a connection it calls
  \<^verbatim>\<open>addIceCandidate\<close> and is suspended at the \<^verbatim>\<open>await\<close>.  With
  \<^verbatim>\<open>window.peerConnection\<close> \<^verbatim>\<open>null\<close> the call throws, the \<^verbatim>\<open>catch\<close> logs it, and so
  does every later iteration, nothing else running in between: the loop runs to its end.
\<close>

definition flush_loop :: "nat \<Rightarrow> nat \<Rightarrow> nat \<Rightarrow> client \<Rightarrow> client" where
  "flush_loop tid a i s =
     (if i < length (arrays s a) then
        (case peerConnection s of
           None \<Rightarrow> reset_pending s
         | Some p \<Rightarrow> suspend tid (Flush a i) (addIceCandidate p (arrays s a ! i) s))
      else reset_pending s)"

text \<open>
  The two fields of \<^verbatim>\<open>window.agentSocketId && window.transferSessionId\<close>, when both are
  truthy.
\<close>

definition hangup_target :: "client \<Rightarrow> (jsstring \<times> jsstring) option" where
  "hangup_target s =
     (case agentSocketId s of
        None \<Rightarrow> None
      | Some a \<Rightarrow>
          (case transferSessionId s of
             None \<Rightarrow> None
           | Some t \<Rightarrow> if a \<noteq> [] \<and> t \<noteq> [] then Some (t, a) else None))"

text \<open>
  \<^verbatim>\<open>endWebRTCCall\<close>.  When it is to notify the server and \<^verbatim>\<open>voiceSocket\<close> is
  \<^verbatim>\<open>null\<close>, \<^verbatim>\<open>voiceSocket.emit\<close> throws and the timeout that removes the transcript
  container is not set.
\<close>

definition endWebRTCCall :: "client \<Rightarrow> client" where
  "endWebRTCCall s =
     (let s1 = (case localStream s of
                  None \<Rightarrow> s
                | Some k \<Rightarrow> s\<lparr>streams := (streams s)[k := Stopped], localStream := None\<rparr>);
          s2 = s1\<lparr>peerConnection := None\<rparr>;
          s3 = s2\<lparr>transferRecognition := None\<rparr>;
          s4 = set_agent_status (js ''Call ended'') s3
      in case hangup_target s4 of
           None \<Rightarrow> spawn RemoveTranscript s4
         | Some (t, a) \<Rightarrow>
             (case voiceSocket s4 of
                None \<Rightarrow> s4
              | Some _ \<Rightarrow> spawn RemoveTranscript (emit (Webrtc_hangup t a) s4)))"

definition endWebRTCCall_throws :: "client \<Rightarrow> bool" where
  "endWebRTCCall_throws s \<longleftrightarrow> hangup_target s \<noteq> None \<and> voiceSocket s = None"

definition on_webrtc_hangup :: "client \<Rightarrow> client" where
  "on_webrtc_hangup s =
     (if endWebRTCCall_throws s then endWebRTCCall s
      else showToast (js ''Agent ended the call'') Info (endWebRTCCall s))"

definition on_call_transcript :: "jsstring \<Rightarrow> jsstring \<Rightarrow> client \<Rightarrow> client" where
  "on_call_transcript sp tx s = addTransferTranscriptEntry sp tx s"

definition startTransferSpeechRecognition :: "jsstring \<Rightarrow> jsstring \<Rightarrow> client \<Rightarrow> client" where
  "startTransferSpeechRecognition sessionId agentSocketId' s =
     (if \<not> has_speech s then s
      else s\<lparr>transferRecognition :=
               Some \<lparr>tr_session = sessionId, tr_agent = agentSocketId', tr_running = True\<rparr>\<rparr>)"

text \<open>
  \<^verbatim>\<open>transferRecognition.onresult\<close> over the results from \<^verbatim>\<open>event.resultIndex\<close> on.
  With \<^verbatim>\<open>voiceSocket\<close> \<^verbatim>\<open>null\<close> the \<^verbatim>\<open>emit\<close> throws and ends the handler.
\<close>

fun transfer_results :: "jsstring \<Rightarrow> jsstring \<Rightarrow> speech_result list \<Rightarrow> client \<Rightarrow> client" where
  "transfer_results sessionId agentSocketId' [] s = s"
| "transfer_results sessionId agentSocketId' (r # rs) s =
     (if isFinal r \<and> trim (transcript r) \<noteq> [] then
        (let s1 = addTransferTranscriptEntry (js ''customer'') (trim (transcript r)) s in
         case voiceSocket s1 of
           None \<Rightarrow> s1
         | Some _ \<Rightarrow>
             transfer_results sessionId agentSocketId' rs
               (emit (Call_transcript sessionId (trim (transcript r)) (js ''customer'')
                        agentSocketId') s1))
      else transfer_results sessionId agentSocketId' rs s)"

definition transfer_onresult :: "speech_result list \<Rightarrow> nat \<Rightarrow> client \<Rightarrow> client" where
  "transfer_onresult results resultIndex s =
     (case transferRecognition s of
        None \<Rightarrow> s
      | Some r \<Rightarrow> transfer_results (tr_session r) (tr_agent r) (drop resultIndex results) s)"

text \<open>
  \<^verbatim>\<open>onconnectionstatechange\<close> of the connection that \<^verbatim>\<open>window.peerConnection\<close> names,
  whose state has become \<open>st\<close>.
\<close>

definition on_connectionstatechange :: "conn_state \<Rightarrow> client \<Rightarrow> client" where
  "on_connectionstatechange st s =
     (case peerConnection s of
        None \<Rightarrow> s
      | Some p \<Rightarrow>
          (let s1 = s\<lparr>peerConnection := Some (p\<lparr>connectionState := st\<rparr>)\<rparr> in
           if st = Connected then
             startTransferSpeechRecognition (pc_session p) (pc_agent p)
               (showToast (js ''Voice call connected!'') Success
                  (set_agent_status ([0xD83D, 0xDFE2] @ js '' Connected'') s1))
           else if st = Disconnected \<or> st = Failed then
             endWebRTCCall (set_agent_status ([0xD83D, 0xDD34] @ js '' Disconnected'') s1)
           else s1))"

text \<open>\<^verbatim>\<open>onicecandidate\<close> of that connection, for a candidate the browser has gathered.\<close>

definition on_icecandidate :: "candidate option \<Rightarrow> client \<Rightarrow> client" where
  "on_icecandidate candidate s =
     (case peerConnection s of
        None \<Rightarrow> s
      | Some p \<Rightarrow>
          (case candidate of
             None \<Rightarrow> s
           | Some c \<Rightarrow>
               (case voiceSocket s of
                  None \<Rightarrow> s
                | Some _ \<Rightarrow> emit (Webrtc_ice_candidate (pc_session p) c (pc_agent p)) s)))"

subsection \<open>Resuming after an await\<close>

text \<open>
  The \<^verbatim>\<open>catch\<close> of \<^verbatim>\<open>startWebRTCCall\<close>, given \<^verbatim>\<open>error.message\<close>.  When the error is
  the \<^verbatim>\<open>TypeError\<close> of a property read on \<^verbatim>\<open>null\<close> the message is the engine's own
  text, for which \<open>null_error_message\<close> stands.
\<close>

definition webrtc_error :: "jsstring \<Rightarrow> client \<Rightarrow> client" where
  "webrtc_error message s = showToast (js ''Error accessing microphone: '' @ message) Error s"

definition null_error_message :: jsstring where
  "null_error_message = js ''Cannot read properties of null''"

text \<open>
  \<^verbatim>\<open>getUserMedia\<close> of \<^verbatim>\<open>startVoiceCall\<close> has settled.  The stream it resolves with is
  not kept: \<^verbatim>\<open>.then(() => { initVoiceCall(); })\<close>.
\<close>

definition resume_StartMic :: "outcome \<Rightarrow> client \<Rightarrow> client" where
  "resume_StartMic out s =
     (case out of
        Resolved _ \<Rightarrow> initVoiceCall (s\<lparr>streams := streams s @ [Live]\<rparr>)
      | Rejected _ \<Rightarrow>
          showToast (js ''Microphone access is required for voice calls'') Error s)"

text \<open>
  \<^verbatim>\<open>getUserMedia\<close> of \<^verbatim>\<open>startWebRTCCall\<close> has settled: the function stores the
  stream, creates the connection and is suspended again at \<^verbatim>\<open>createOffer\<close>.
\<close>

definition resume_WebRTCMic :: "nat \<Rightarrow> jsstring \<Rightarrow> jsstring \<Rightarrow> outcome \<Rightarrow> client \<Rightarrow> client" where
  "resume_WebRTCMic tid agentSocketId' sessionId out s =
     (case out of
        Rejected m \<Rightarrow> webrtc_error m s
      | Resolved _ \<Rightarrow>
          (let k = length (streams s);
               s1 = s\<lparr>streams := streams s @ [Live], localStream := Some k\<rparr>;
               s2 = s1\<lparr>peerConnection :=
                         Some \<lparr>pc_id = pcs_created s1, pc_agent = agentSocketId',
                               pc_session = sessionId, pc_streams = [k],
                               localDescription = None, remoteDescription = None,
                               connectionState = New, iceAdded = []\<rparr>,
                       pcs_created := Suc (pcs_created s1)\<rparr>
           in suspend tid (CreateOffer agentSocketId' sessionId) s2))"

text \<open>
  \<^verbatim>\<open>createOffer\<close> has settled: \<^verbatim>\<open>window.peerConnection.setLocalDescription(offer)\<close>
  is called on whatever the property names now.
\<close>

definition resume_CreateOffer :: "nat \<Rightarrow> jsstring \<Rightarrow> jsstring \<Rightarrow> outcome \<Rightarrow> client \<Rightarrow> client" where
  "resume_CreateOffer tid agentSocketId' sessionId out s =
     (case out of
        Rejected m \<Rightarrow> webrtc_error m s
      | Resolved offer \<Rightarrow>
          (case peerConnection s of
             None \<Rightarrow> webrtc_error null_error_message s
           | Some p \<Rightarrow> suspend tid (SetLocal agentSocketId' sessionId offer (pc_id p)) s))"

text \<open>
  \<^verbatim>\<open>setLocalDescription\<close>, called on connection \<open>pid\<close>, has settled: the offer is sent
  to the agent.
\<close>

definition resume_SetLocal ::
  "jsstring \<Rightarrow> jsstring \<Rightarrow> sdp \<Rightarrow> nat \<Rightarrow> outcome \<Rightarrow> client \<Rightarrow> client" where
  "resume_SetLocal agentSocketId' sessionId offer pid out s =
     (case out of
        Rejected m \<Rightarrow> webrtc_error m s
      | Resolved _ \<Rightarrow>
          (let s1 = (case peerConnection s of
                       None \<Rightarrow> s
                     | Some p \<Rightarrow>
                         if pc_id p = pid
                         then s\<lparr>peerConnection := Some (p\<lparr>localDescription := Some offer\<rparr>)\<rparr>
                         else s)
           in case voiceSocket s1 of
                None \<Rightarrow> webrtc_error null_error_message s1
              | Some _ \<Rightarrow> emit (Webrtc_offer sessionId offer agentSocketId') s1))"

text \<open>
  \<^verbatim>\<open>setRemoteDescription\<close>, called on connection \<open>pid\<close>, has settled.  On success
  the connection has its remote description, and the handler goes on to the queued
  candidates; a rejection is caught and logged.
\<close>

definition resume_SetRemote :: "nat \<Rightarrow> nat \<Rightarrow> sdp \<Rightarrow> outcome \<Rightarrow> client \<Rightarrow> client" where
  "resume_SetRemote tid pid answer out s =
     (case out of
        Rejected _ \<Rightarrow> s
      | Resolved _ \<Rightarrow>
          (let s1 = (case peerConnection s of
                       None \<Rightarrow> s
                     | Some p \<Rightarrow>
                         if pc_id p = pid
                         then s\<lparr>peerConnection := Some (p\<lparr>remoteDescription := Some answer\<rparr>)\<rparr>
                         else s)
           in if 0 < length (arrays s1 (pendingIceCandidates s1))
              then flush_loop tid (pendingIceCandidates s1) 0 s1
              else s1))"

definition resume :: "nat \<Rightarrow> task \<Rightarrow> outcome \<Rightarrow> client \<Rightarrow> client" where
  "resume tid t out s =
     (case t of
        StartMic \<Rightarrow> resume_StartMic out s
      | WebRTCMic a sid \<Rightarrow> resume_WebRTCMic tid a sid out s
      | CreateOffer a sid \<Rightarrow> resume_CreateOffer tid a sid out s
      | SetLocal a sid offer pid \<Rightarrow> resume_SetLocal a sid offer pid out s
      | SetRemote pid answer \<Rightarrow> resume_SetRemote tid pid answer out s
      | Flush a i \<Rightarrow> flush_loop tid a (Suc i) s
      | RemoveTranscript \<Rightarrow> s\<lparr>transfer_transcript := None\<rparr>)"

text \<open>The promise or timer that task \<open>tid\<close> waits for settles, and the task runs on.\<close>

definition settle :: "nat \<Rightarrow> outcome \<Rightarrow> client \<Rightarrow> client" where
  "settle tid out s =
     (case tasks s tid of
        None \<Rightarrow> s
      | Some t \<Rightarrow> resume tid t out (s\<lparr>tasks := (tasks s)(tid := None)\<rparr>))"

subsection \<open>The event loop\<close>

text \<open>The events the server sends, and the socket's own \<^verbatim>\<open>connect\<close> and \<^verbatim>\<open>disconnect\<close>.\<close>

datatype socket_event =
    On_connect
  | On_disconnect
  | On_call_started jsstring
  | On_agent_response jsstring
  | On_transfer_call jsstring jsstring "jsstring option" nat
  | On_agent_ready_for_call "jsstring option" jsstring jsstring
  | On_webrtc_answer "sdp option"
  | On_webrtc_ice_candidate "candidate option"
  | On_webrtc_hangup
  | On_call_transcript jsstring jsstring
  | On_call_ended "nat option"
  | On_error jsstring
  | On_no_agents_available "jsstring option"

fun handle :: "socket_event \<Rightarrow> client \<Rightarrow> client" where
  "handle On_connect s = on_connect s"
| "handle On_disconnect s = on_disconnect s"
| "handle (On_call_started greeting) s = on_call_started greeting s"
| "handle (On_agent_response tx) s = on_agent_response tx s"
| "handle (On_transfer_call session_id reason message now) s =
     on_transfer_call session_id reason message now s"
| "handle (On_agent_ready_for_call agent_id agent_sid session_id) s =
     on_agent_ready_for_call agent_id agent_sid session_id s"
| "handle (On_webrtc_answer answer) s = on_webrtc_answer answer s"
| "handle (On_webrtc_ice_candidate candidate) s = on_webrtc_ice_candidate candidate s"
| "handle On_webrtc_hangup s = on_webrtc_hangup s"
| "handle (On_call_transcript sp tx) s = on_call_transcript sp tx s"
| "handle (On_call_ended duration_seconds) s = on_call_ended duration_seconds s"
| "handle (On_error message) s = on_error message s"
| "handle (On_no_agents_available message) s = on_no_agents_available message s"

text \<open>
  A socket event reaches the page only through the socket that \<^verbatim>\<open>voiceSocket\<close> names:
  a socket that \<^verbatim>\<open>cleanupVoiceCall\<close> has disconnected fires nothing more.  The socket
  sets its \<^verbatim>\<open>connected\<close> flag before it calls the handler, and the server's events
  arrive on a connected socket.
\<close>

definition deliver :: "socket_event \<Rightarrow> client \<Rightarrow> client" where
  "deliver e s =
     (case voiceSocket s of
        None \<Rightarrow> s
      | Some sock \<Rightarrow>
          if e = On_connect then handle e (s\<lparr>voiceSocket := Some (sock\<lparr>connected := True\<rparr>)\<rparr>)
          else if e = On_disconnect
            then handle e (s\<lparr>voiceSocket := Some (sock\<lparr>connected := False\<rparr>)\<rparr>)
          else if connected sock then handle e s
          else s)"

text \<open>
  What can happen to the page: a click on one of its buttons (the End Call button of the
  transfer transcript exists only while its container does), a settled promise or timer,
  a socket event, a result of either recogniser, and the two events of the connection
  that \<^verbatim>\<open>window.peerConnection\<close> names.
\<close>

datatype event =
    Click_start jsstring jsstring
  | Click_end
  | Click_mute
  | Click_end_webrtc
  | Settle nat outcome
  | Socket socket_event
  | Voice_result "speech_result list" nat
  | Transfer_result "speech_result list" nat
  | Pc_state conn_state
  | Pc_icecandidate "candidate option"

fun step :: "event \<Rightarrow> client \<Rightarrow> client" where
  "step (Click_start name_value phone_value) s = startVoiceCall name_value phone_value s"
| "step Click_end s = endVoiceCall s"
| "step Click_mute s = toggleVoiceMute s"
| "step Click_end_webrtc s = (if transfer_transcript s = None then s else endWebRTCCall s)"
| "step (Settle tid out) s = settle tid out s"
| "step (Socket e) s = deliver e s"
| "step (Voice_result results resultIndex) s = voice_onresult results resultIndex s"
| "step (Transfer_result results resultIndex) s = transfer_onresult results resultIndex s"
| "step (Pc_state st) s = on_connectionstatechange st s"
| "step (Pc_icecandidate candidate) s = on_icecandidate candidate s"

text \<open>The handlers run one after the other, each to its end or to its next \<^verbatim>\<open>await\<close>.\<close>

definition run :: "event list \<Rightarrow> client \<Rightarrow> client" where
  "run evs s = fold step evs s"

text \<open>
  The page as the script leaves it when it has loaded, in a given browser.
  \<^verbatim>\<open>window.pendingIceCandidates\<close> is undefined until \<^verbatim>\<open>initVoiceCall\<close> assigns it and is
  not read before; array \<open>0\<close> stands for that.
\<close>

definition page_loaded :: "bool \<Rightarrow> bool \<Rightarrow> client" where
  "page_loaded media speech =
     \<lparr>has_mediaDevices = media, has_speech = speech,
      voiceSocket = None, voiceCallActive = False, voiceTimerInterval = False,
      voiceRecognition = None, voiceIsMuted = False,
      voiceUserName = [], voiceUserPhone = [], finalTranscript = [],
      transferSessionId = None, transferReason = None, agentSocketId = None,
      peerConnection = None, pcs_created = 0, localStream = None, streams = [],
      pendingIceCandidates = 0, arrays = (\<lambda>_. []), next_array = 1,
      transferRecognition = None,
      voice_transcript = [], transfer_transcript = None, agent_status = Some [],
      emitted = [], toasts = [], tasks = Map.empty, next_task = 0\<rparr>"

text \<open>The room names that a list of emissions asks agents to join, in order.\<close>

fun room_names :: "emission list \<Rightarrow> jsstring list" where
  "room_names [] = []"
| "room_names (Agent_transfer_room room session_id reason # es) = room # room_names es"
| "room_names (e # es) = room_names es"

section \<open>The voice page: ending a call\<close>

text \<open>
  The voice page (\<^verbatim>\<open>voice.js\<close>) keeps one socket for its whole life, so its
  \<^verbatim>\<open>socket.emit\<close> never meets \<^verbatim>\<open>null\<close>.  \<open>recognition\<close>: \<open>None\<close> when the browser has
  no recogniser, \<open>Some b\<close> a recogniser that the page has left running iff \<open>b\<close>;
  \<open>isListening\<close> is the page's own flag, which the recogniser's \<^verbatim>\<open>onstart\<close> and
  \<^verbatim>\<open>onend\<close> set.  \<open>status\<close> is the pair that \<^verbatim>\<open>updateStatus\<close> was last called with.
\<close>

datatype voice_emission = V_end_call jsstring

record voice_page =
  sessionId :: "jsstring option"
  isInCall :: bool
  isMuted :: bool
  timerInterval :: bool
  recognition :: "bool option"
  isListening :: bool
  callBtn_hidden :: bool
  endBtn_hidden :: bool
  muteBtn_disabled :: bool
  muteBtn_muted :: bool
  status :: "jsstring \<times> jsstring"
  v_emitted :: "voice_emission list"


section \<open>Notions used in the statements\<close>

definition socket_connected :: "client \<Rightarrow> bool" where
  "socket_connected s = (case voiceSocket s of None \<Rightarrow> False | Some sock \<Rightarrow> connected sock)"

text \<open>
  The texts that a recognition event yields: the trimmed transcripts of its results from
  \<^verbatim>\<open>event.resultIndex\<close> on that are final and not blank.
\<close>

definition final_texts :: "speech_result list \<Rightarrow> nat \<Rightarrow> jsstring list" where
  "final_texts results resultIndex =
     map (\<lambda>r. trim (transcript r))
       (filter (\<lambda>r. isFinal r \<and> trim (transcript r) \<noteq> []) (drop resultIndex results))"

definition customer_entry :: "jsstring \<Rightarrow> transcript_entry" where
  "customer_entry t = \<lparr>entry_speaker = js ''customer'', entry_text = t\<rparr>"

text \<open>
  A customer who has entered a name and a number, granted the microphone and been
  greeted by the AI agent.
\<close>

definition ai_call_events :: "event list" where
  "ai_call_events =
     [Click_start (js ''Asha'') (js ''9876543210''), Settle 0 (Resolved 0),
      Socket On_connect, Socket (On_call_started (js ''Hello''))]"

definition in_ai_call :: client where
  "in_ai_call = run ai_call_events (page_loaded True True)"

text \<open>The same customer after the AI agent has decided to hand the call over.\<close>

definition waiting_for_agent :: client where
  "waiting_for_agent =
     run [Socket (On_transfer_call (js ''s1'') (js ''customer_request'') None 1700000000000)]
       in_ai_call"

text \<open>
  The same customer after one agent has accepted and the offer has gone out: the
  connection exists and has no remote description yet.
\<close>

definition offer_sent :: client where
  "offer_sent =
     run [Socket (On_agent_ready_for_call (Some (js ''Ravi'')) (js ''agent-1'') (js ''s1'')),
          Settle 1 (Resolved 0), Settle 1 (Resolved 7), Settle 1 (Resolved 0)]
       waiting_for_agent"

text \<open>
  The same customer after the agent's answer has been applied and the connection has
  reported \<^verbatim>\<open>connected\<close>.
\<close>

definition in_human_call :: client where
  "in_human_call =
     run [Socket (On_webrtc_answer (Some 8)), Settle 2 (Resolved 0), Pc_state Connected]
       offer_sent"

text \<open>The \<^verbatim>\<open>webrtc_ice_candidate\<close> events that bring the given candidates, in order.\<close>

definition ice_events :: "candidate list \<Rightarrow> event list" where
  "ice_events cs = map (\<lambda>c. Socket (On_webrtc_ice_candidate (Some c))) cs"

text \<open>
  Two agents answer the same request.  The second \<^verbatim>\<open>agent_ready_for_call\<close> arrives
  while \<^verbatim>\<open>getUserMedia\<close> of the first \<^verbatim>\<open>startWebRTCCall\<close> is pending; then the
  promises of the first call settle (microphone, offer \<open>7\<close>, local description), and
  after them those of the second (microphone, offer \<open>9\<close>, local description).
\<close>

definition two_agents_ready :: "event list" where
  "two_agents_ready =
     [Socket (On_agent_ready_for_call (Some (js ''Ravi'')) (js ''agent-1'') (js ''s1'')),
      Socket (On_agent_ready_for_call (Some (js ''Meera'')) (js ''agent-2'') (js ''s1'')),
      Settle 1 (Resolved 0), Settle 1 (Resolved 7), Settle 1 (Resolved 0),
      Settle 2 (Resolved 0), Settle 2 (Resolved 9), Settle 2 (Resolved 0)]"

text \<open>
  The checks of \<^verbatim>\<open>startVoiceCall\<close>: the event is a click on Start whose name and phone
  inputs pass them, and \<open>name\<close> and \<open>phone\<close> are what the function then stores.
\<close>

fun valid_click :: "jsstring \<Rightarrow> jsstring \<Rightarrow> event \<Rightarrow> bool" where
  "valid_click name phone (Click_start name_value phone_value) \<longleftrightarrow>
     trim name_value \<noteq> [] \<and> trim phone_value \<noteq> [] \<and> 10 \<le> length phone_value \<and>
     name = trim name_value \<and> phone = trim phone_value"
| "valid_click name phone _ \<longleftrightarrow> False"

definition checks_passed :: "event list \<Rightarrow> jsstring \<Rightarrow> jsstring \<Rightarrow> bool" where
  "checks_passed evs name phone = list_ex (valid_click name phone) evs"

text \<open>
  The event resolves the \<^verbatim>\<open>getUserMedia\<close> promise of \<^verbatim>\<open>startVoiceCall\<close> that is
  pending on page \<open>s\<close>: the browser grants the microphone.
\<close>

fun grants_microphone :: "client \<Rightarrow> event \<Rightarrow> bool" where
  "grants_microphone s (Settle t (Resolved v)) \<longleftrightarrow> tasks s t = Some StartMic"
| "grants_microphone s _ \<longleftrightarrow> False"

text \<open>Some event of the run \<open>evs\<close> from page \<open>s\<close> grants the microphone.\<close>

fun mic_granted :: "client \<Rightarrow> event list \<Rightarrow> bool" where
  "mic_granted s [] \<longleftrightarrow> False"
| "mic_granted s (e # es) \<longleftrightarrow> grants_microphone s e \<or> mic_granted (step e s) es"

text \<open>
  A step from \<open>s\<close> to \<open>s'\<close> that has nothing to do with starting a call: it keeps the
  stored name and phone, creates no socket, emits no \<^verbatim>\<open>start_call\<close> and asks for no
  microphone on behalf of \<^verbatim>\<open>startVoiceCall\<close>.
\<close>

definition quiet :: "client \<Rightarrow> client \<Rightarrow> bool" where
  "quiet s s' \<longleftrightarrow>
     voiceUserName s' = voiceUserName s \<and> voiceUserPhone s' = voiceUserPhone s \<and>
     (voiceSocket s = None \<longrightarrow> voiceSocket s' = None) \<and>
     (\<forall>n p. Start_call n p \<in> set (emitted s') \<longrightarrow> Start_call n p \<in> set (emitted s)) \<and>
     (\<forall>t. tasks s' t = Some StartMic \<longrightarrow> tasks s t = Some StartMic)"

text \<open>What holds of the page \<open>s\<close> that the run \<open>evs\<close> from \<open>s0\<close> has reached.\<close>

definition start_inv :: "client \<Rightarrow> event list \<Rightarrow> client \<Rightarrow> bool" where
  "start_inv s0 evs s \<longleftrightarrow>
     (\<forall>n p. Start_call n p \<in> set (emitted s) \<longrightarrow>
        checks_passed evs n p \<and> mic_granted s0 evs) \<and>
     (voiceSocket s \<noteq> None \<longrightarrow>
        checks_passed evs (voiceUserName s) (voiceUserPhone s) \<and> mic_granted s0 evs) \<and>
     ((\<exists>t. tasks s t = Some StartMic) \<longrightarrow>
        checks_passed evs (voiceUserName s) (voiceUserPhone s))"

text \<open>
  Every transcript entry of page \<open>s\<close> is still in its place on page \<open>s'\<close>: each
  transcript of \<open>s\<close> is an initial segment of the same transcript of \<open>s'\<close>.
\<close>

definition keeps_entries :: "client \<Rightarrow> client \<Rightarrow> bool" where
  "keeps_entries s s' \<longleftrightarrow>
     prefix (voice_transcript s) (voice_transcript s') \<and>
     (case transfer_transcript s of
        None \<Rightarrow> True
      | Some es \<Rightarrow>
          (case transfer_transcript s' of None \<Rightarrow> False | Some es' \<Rightarrow> prefix es es'))"

text \<open>
  The two events that take a whole transcript away on page \<open>s\<close>: a \<^verbatim>\<open>call_started\<close>
  that reaches the page, and the timeout of \<^verbatim>\<open>endWebRTCCall\<close> when it fires.
\<close>

fun clears_transcript :: "client \<Rightarrow> event \<Rightarrow> bool" where
  "clears_transcript s (Socket (On_call_started greeting)) \<longleftrightarrow> socket_connected s"
| "clears_transcript s (Settle t out) \<longleftrightarrow> tasks s t = Some RemoveTranscript"
| "clears_transcript s _ \<longleftrightarrow> False"

text \<open>No event of the run \<open>evs\<close> from page \<open>s\<close> takes a transcript away.\<close>

fun never_cleared :: "client \<Rightarrow> event list \<Rightarrow> bool" where
  "never_cleared s [] \<longleftrightarrow> True"
| "never_cleared s (e # es) \<longleftrightarrow> \<not> clears_transcript s e \<and> never_cleared (step e s) es"

text \<open>
  The events whose handler calls \<^verbatim>\<open>endWebRTCCall\<close>: the End Call button of the transfer
  transcript, \<^verbatim>\<open>webrtc_hangup\<close>, and a connection that reports \<^verbatim>\<open>disconnected\<close> or
  \<^verbatim>\<open>failed\<close>.
\<close>

fun calls_endWebRTCCall :: "event \<Rightarrow> bool" where
  "calls_endWebRTCCall Click_end_webrtc \<longleftrightarrow> True"
| "calls_endWebRTCCall (Socket e) \<longleftrightarrow> e = On_webrtc_hangup"
| "calls_endWebRTCCall (Pc_state st) \<longleftrightarrow> st = Disconnected \<or> st = Failed"
| "calls_endWebRTCCall _ \<longleftrightarrow> False"

text \<open>A step from \<open>s\<close> to \<open>s'\<close> that sets no timeout to remove the transfer transcript.\<close>

definition no_new_removal :: "client \<Rightarrow> client \<Rightarrow> bool" where
  "no_new_removal s s' \<longleftrightarrow>
     (\<forall>t. tasks s' t = Some RemoveTranscript \<longrightarrow> tasks s t = Some RemoveTranscript)"


section \<open>Basic facts\<close>

lemmas page_defs =
  showToast_def emit_def set_agent_status_def spawn_def suspend_def
  addVoiceTranscript_def showTransferTranscript_def addTransferTranscriptEntry_def
  startVoiceCall_def initVoiceCall_def initSpeechRecognition_def on_connect_def
  on_call_started_def on_agent_response_def voice_result_def voice_onresult_def
  toggleVoiceMute_def cleanupVoiceCall_def endVoiceCall_def on_call_ended_def
  on_error_def on_no_agents_available_def on_disconnect_def on_transfer_call_def
  startWebRTCCall_def on_agent_ready_for_call_def on_webrtc_answer_def push_pending_def
  addIceCandidate_def on_webrtc_ice_candidate_def reset_pending_def flush_loop_def
  hangup_target_def endWebRTCCall_def endWebRTCCall_throws_def on_webrtc_hangup_def
  on_call_transcript_def startTransferSpeechRecognition_def transfer_onresult_def
  on_connectionstatechange_def on_icecandidate_def webrtc_error_def
  resume_StartMic_def resume_WebRTCMic_def resume_CreateOffer_def resume_SetLocal_def
  resume_SetRemote_def resume_def settle_def deliver_def run_def page_loaded_def Let_def

lemmas string_defs = js_def trim_def is_js_whitespace_def

subsection \<open>Decimal digits\<close>

lemma unat_digit: "d < 10 \<Longrightarrow> unat (digit d) = 48 + d"
  by (simp only: digit_def unat_of_nat) simp

lemma digit_inj:
  assumes a: "a < 10" and b: "b < 10" and eq: "digit a = digit b"
  shows "a = b"
proof -
  have "48 + a = unat (digit a)" by (simp only: unat_digit [OF a])
  also have "\<dots> = unat (digit b)" by (simp only: eq)
  also have "\<dots> = 48 + b" by (simp only: unat_digit [OF b])
  finally show ?thesis by simp
qed

lemma digit_not_underscore:
  assumes "d < 10"
  shows "digit d \<noteq> 95"
proof
  assume "digit d = 95"
  then have "unat (digit d) = 95" by simp
  then have "48 + d = 95" by (simp only: unat_digit [OF assms])
  with assms show False by arith
qed

lemma dec_not_empty: "dec n \<noteq> []"
  by (subst dec.simps) simp

lemma dec_inj: "dec n = dec m \<Longrightarrow> n = m"
proof (induction n arbitrary: m rule: dec.induct)
  case (1 n)
  show ?case
  proof (cases "n < 10")
    case small: True
    show ?thesis
    proof (cases "m < 10")
      case True
      with small "1.prems" show ?thesis
        by (simp add: dec.simps [of n] dec.simps [of m] digit_inj)
    next
      case False
      with small "1.prems" dec_not_empty [of "m div 10"] show ?thesis
        by (simp add: dec.simps [of n] dec.simps [of m])
    qed
  next
    case big: False
    show ?thesis
    proof (cases "m < 10")
      case True
      with big "1.prems" dec_not_empty [of "n div 10"] show ?thesis
        by (simp add: dec.simps [of n] dec.simps [of m])
    next
      case False
      with big "1.prems" have eq: "dec (n div 10) = dec (m div 10)"
        and d: "digit (n mod 10) = digit (m mod 10)"
        by (simp_all add: dec.simps [of n] dec.simps [of m])
      from "1.IH" [OF big eq] have "n div 10 = m div 10" .
      moreover from d have "n mod 10 = m mod 10"
        by (intro digit_inj) simp_all
      ultimately show ?thesis
        by (metis div_mult_mod_eq)
    qed
  qed
qed

lemma underscore_notin_dec: "95 \<notin> set (dec n)"
proof (induction n rule: dec.induct)
  case (1 n)
  then show ?case
    by (subst dec.simps) (auto simp: digit_not_underscore)
qed

text \<open>Two strings that agree after their last separator agree before it.\<close>

lemma split_at_last:
  assumes eq: "a @ c # d = a' @ c # d'" and d: "c \<notin> set d" and d': "c \<notin> set d'"
  shows "a = a' \<and> d = d'"
proof -
  from eq obtain u where
    "(a = a' @ u \<and> u @ c # d = c # d') \<or> (a @ u = a' \<and> c # d = u @ c # d')"
    by (auto simp: append_eq_append_conv2)
  then show ?thesis
  proof
    assume h: "a = a' @ u \<and> u @ c # d = c # d'"
    show ?thesis
    proof (cases u)
      case Nil
      with h show ?thesis by simp
    next
      case (Cons x u')
      with h have "d' = u' @ c # d" by simp
      with d' show ?thesis by simp
    qed
  next
    assume h: "a @ u = a' \<and> c # d = u @ c # d'"
    show ?thesis
    proof (cases u)
      case Nil
      with h show ?thesis by simp
    next
      case (Cons x u')
      with h have "d = u' @ c # d'" by simp
      with d show ?thesis by simp
    qed
  qed
qed

lemma js_underscore: "js ''_'' = [95]"
  by (simp add: js_def)

lemma room_names_snoc:
  "room_names (es @ [Agent_transfer_room room x y]) = room_names es @ [room]"
  by (induction es rule: room_names.induct) simp_all

subsection \<open>Three pages in the middle of a call\<close>

lemma in_ai_call_fields:
  "voiceCallActive in_ai_call"
  "voiceSocket in_ai_call = Some \<lparr>connected = True\<rparr>"
  "voiceRecognition in_ai_call = Some True"
  "voiceTimerInterval in_ai_call"
  "emitted in_ai_call = [Start_call (js ''Asha'') (js ''9876543210'')]"
  "toasts in_ai_call = [(Success, js ''Call connected!'')]"
  "streams in_ai_call = [Live]"
  "localStream in_ai_call = None"
  "peerConnection in_ai_call = None"
  "transferRecognition in_ai_call = None"
  "transfer_transcript in_ai_call = None"
  "agent_status in_ai_call = Some []"
  "voice_transcript in_ai_call = [\<lparr>entry_speaker = js ''agent'', entry_text = js ''Hello''\<rparr>]"
  "voiceIsMuted in_ai_call = False"
  "has_mediaDevices in_ai_call"
  "has_speech in_ai_call"
  "transferSessionId in_ai_call = None"
  "agentSocketId in_ai_call = None"
  "pcs_created in_ai_call = 0"
  "next_task in_ai_call = 1"
  "tasks in_ai_call = Map.empty"
  "arrays in_ai_call (pendingIceCandidates in_ai_call) = []"
  by (simp_all add: in_ai_call_def ai_call_events_def page_defs string_defs)

lemma waiting_for_agent_fields:
  "voiceCallActive waiting_for_agent"
  "voiceSocket waiting_for_agent = Some \<lparr>connected = True\<rparr>"
  "voiceRecognition waiting_for_agent = None"
  "voiceTimerInterval waiting_for_agent"
  "emitted waiting_for_agent = [Start_call (js ''Asha'') (js ''9876543210''),
     Agent_transfer_room (roomName_webrtc (js ''s1'') 1700000000000) (js ''s1'')
       (js ''customer_request'')]"
  "toasts waiting_for_agent =
     [(Success, js ''Call connected!''), (Info, js ''Connecting to live agent...'')]"
  "streams waiting_for_agent = [Live]"
  "localStream waiting_for_agent = None"
  "peerConnection waiting_for_agent = None"
  "pcs_created waiting_for_agent = 0"
  "transferRecognition waiting_for_agent = None"
  "transfer_transcript waiting_for_agent = Some []"
  "agentSocketId waiting_for_agent = None"
  "transferSessionId waiting_for_agent = Some (js ''s1'')"
  "has_mediaDevices waiting_for_agent"
  "has_speech waiting_for_agent"
  "next_task waiting_for_agent = 1"
  "tasks waiting_for_agent = Map.empty"
  "agent_status waiting_for_agent = Some (js ''Finding available agent...'')"
  "arrays waiting_for_agent (pendingIceCandidates waiting_for_agent) = []"
  by (simp_all add: waiting_for_agent_def run_def deliver_def in_ai_call_fields
      on_transfer_call_def Let_def emit_def showToast_def set_agent_status_def
      showTransferTranscript_def)

lemma offer_sent_fields:
  "voiceCallActive offer_sent"
  "voiceSocket offer_sent = Some \<lparr>connected = True\<rparr>"
  "voiceRecognition offer_sent = None"
  "voiceTimerInterval offer_sent"
  "streams offer_sent = [Live, Live]"
  "localStream offer_sent = Some 1"
  "peerConnection offer_sent =
     Some \<lparr>pc_id = 0, pc_agent = js ''agent-1'', pc_session = js ''s1'', pc_streams = [1],
           localDescription = Some 7, remoteDescription = None,
           connectionState = New, iceAdded = []\<rparr>"
  "pcs_created offer_sent = 1"
  "transferRecognition offer_sent = None"
  "agentSocketId offer_sent = Some (js ''agent-1'')"
  "transferSessionId offer_sent = Some (js ''s1'')"
  "transfer_transcript offer_sent = Some []"
  "has_speech offer_sent"
  "next_task offer_sent = 2"
  "agent_status offer_sent = Some (js ''Connected to Ravi'')"
  "arrays offer_sent (pendingIceCandidates offer_sent) = []"
  "emitted offer_sent =
     emitted waiting_for_agent @ [Webrtc_offer (js ''s1'') 7 (js ''agent-1'')]"
  by (simp_all add: offer_sent_def waiting_for_agent_fields page_defs js_def)

lemma in_human_call_fields:
  "voiceCallActive in_human_call"
  "voiceSocket in_human_call = Some \<lparr>connected = True\<rparr>"
  "voiceRecognition in_human_call = None"
  "voiceTimerInterval in_human_call"
  "streams in_human_call = [Live, Live]"
  "localStream in_human_call = Some 1"
  "peerConnection in_human_call =
     Some \<lparr>pc_id = 0, pc_agent = js ''agent-1'', pc_session = js ''s1'', pc_streams = [1],
           localDescription = Some 7, remoteDescription = Some 8,
           connectionState = Connected, iceAdded = []\<rparr>"
  "pcs_created in_human_call = 1"
  "transferRecognition in_human_call =
     Some \<lparr>tr_session = js ''s1'', tr_agent = js ''agent-1'', tr_running = True\<rparr>"
  "agentSocketId in_human_call = Some (js ''agent-1'')"
  "transferSessionId in_human_call = Some (js ''s1'')"
  "transfer_transcript in_human_call = Some []"
  "next_task in_human_call = 3"
  "agent_status in_human_call = Some ([0xD83D, 0xDFE2] @ js '' Connected'')"
  "emitted in_human_call =
     emitted waiting_for_agent @ [Webrtc_offer (js ''s1'') 7 (js ''agent-1'')]"
  by (simp_all add: in_human_call_def offer_sent_fields page_defs)

section \<open>Room identifiers\<close>

text \<open>
  What tells two room identifiers apart.  In the customer dashboard two attempts get
  different identifiers exactly when they differ in the session or in the clock reading;
  on the voice page two attempts of one session get different identifiers exactly when
  their clock readings differ.  The \<^verbatim>\<open>transfer_call\<close> handler asks for exactly that room.
\<close>

lemma room_name_determined_by_session_and_clock:
  "(roomName_webrtc sid t = roomName_webrtc sid' t' \<longleftrightarrow> sid = sid' \<and> t = t') \<and>
   (roomName_bsmart sid t = roomName_bsmart sid t' \<longleftrightarrow> t = t') \<and>
   room_names (emitted (on_transfer_call sid reason message t s)) =
     room_names (emitted s) @ [roomName_webrtc sid t]"
proof (intro conjI)
  show "roomName_webrtc sid t = roomName_webrtc sid' t' \<longleftrightarrow> sid = sid' \<and> t = t'"
  proof
    assume "roomName_webrtc sid t = roomName_webrtc sid' t'"
    then have "sid @ 95 # dec t = sid' @ 95 # dec t'"
      by (simp add: roomName_webrtc_def js_underscore)
    then have "sid = sid' \<and> dec t = dec t'"
      by (rule split_at_last) (rule underscore_notin_dec)+
    then show "sid = sid' \<and> t = t'"
      by (auto dest: dec_inj)
  qed simp
  show "roomName_bsmart sid t = roomName_bsmart sid t' \<longleftrightarrow> t = t'"
    by (auto simp: roomName_bsmart_def dest: dec_inj)
  show "room_names (emitted (on_transfer_call sid reason message t s)) =
     room_names (emitted s) @ [roomName_webrtc sid t]"
    by (simp add: on_transfer_call_def Let_def emit_def showToast_def set_agent_status_def
        showTransferTranscript_def room_names_snoc split: option.splits)
qed

text \<open>
  C7 fails on the code.  The identifier is fresh only as far as the millisecond clock
  is: two transfer decisions for one session that the page handles within the same
  millisecond are two attempts that ask for the same room.
\<close>

theorem same_millisecond_same_room:
  "room_names (emitted (run
      [Socket (On_transfer_call (js ''s1'') (js ''customer_request'') None 1700000000000),
       Socket (On_transfer_call (js ''s1'') (js ''customer_request'') None 1700000000000)]
      in_ai_call)) =
     [roomName_webrtc (js ''s1'') 1700000000000, roomName_webrtc (js ''s1'') 1700000000000] \<and>
   \<not> distinct (room_names (emitted (run
      [Socket (On_transfer_call (js ''s1'') (js ''customer_request'') None 1700000000000),
       Socket (On_transfer_call (js ''s1'') (js ''customer_request'') None 1700000000000)]
      in_ai_call)))"
proof -
  have "room_names (emitted (run
      [Socket (On_transfer_call (js ''s1'') (js ''customer_request'') None 1700000000000),
       Socket (On_transfer_call (js ''s1'') (js ''customer_request'') None 1700000000000)]
      in_ai_call)) =
     [roomName_webrtc (js ''s1'') 1700000000000, roomName_webrtc (js ''s1'') 1700000000000]"
    by (simp add: run_def deliver_def in_ai_call_fields on_transfer_call_def Let_def emit_def
        showToast_def set_agent_status_def showTransferTranscript_def)
  then show ?thesis by simp
qed

section \<open>Ending a call twice\<close>



section \<open>An unexpected disconnect\<close>

text \<open>
  What the \<^verbatim>\<open>disconnect\<close> handler does.  When the socket disconnects while a call is active (\<^verbatim>\<open>voiceCallActive\<close>, which
  holds from \<^verbatim>\<open>call_started\<close> through the AI phase and the human phase), the handler
  runs \<^verbatim>\<open>cleanupVoiceCall\<close> and shows the warning toast \<^verbatim>\<open>Call disconnected\<close>: the call
  is no longer active, and the recogniser, the timer and the socket are released.  When
  no call is active the handler changes nothing; the only difference the event makes is
  the socket's own \<^verbatim>\<open>connected\<close> flag.
\<close>

lemma disconnect_handler_effect:
  "(voiceCallActive s \<longrightarrow>
      on_disconnect s =
        (cleanupVoiceCall s)\<lparr>toasts := toasts s @ [(Warning, js ''Call disconnected'')]\<rparr> \<and>
      \<not> voiceCallActive (on_disconnect s) \<and>
      voiceSocket (on_disconnect s) = None \<and>
      voiceRecognition (on_disconnect s) = None \<and>
      \<not> voiceTimerInterval (on_disconnect s)) \<and>
   (\<not> voiceCallActive s \<longrightarrow> on_disconnect s = s) \<and>
   (\<forall>sock. voiceSocket s = Some sock \<longrightarrow>
      step (Socket On_disconnect) s =
        on_disconnect (s\<lparr>voiceSocket := Some (sock\<lparr>connected := False\<rparr>)\<rparr>))"
  by (simp add: on_disconnect_def showToast_def cleanupVoiceCall_def deliver_def)

lemma disconnect_handler_effect_examples:
  "voiceCallActive in_ai_call \<and>
   \<not> voiceCallActive (on_disconnect in_ai_call) \<and>
   voiceSocket (on_disconnect in_ai_call) = None \<and>
   voiceRecognition (on_disconnect in_ai_call) = None \<and>
   \<not> voiceTimerInterval (on_disconnect in_ai_call) \<and>
   toasts (on_disconnect in_ai_call) =
     [(Success, js ''Call connected!''), (Warning, js ''Call disconnected'')] \<and>
   voiceCallActive in_human_call \<and>
   \<not> voiceCallActive (step (Socket On_disconnect) in_human_call) \<and>
   \<not> voiceCallActive (page_loaded True True) \<and>
   on_disconnect (page_loaded True True) = page_loaded True True"
  using disconnect_handler_effect [of in_ai_call]
    disconnect_handler_effect [of in_human_call]
    disconnect_handler_effect [of "page_loaded True True"]
  by (simp add: in_ai_call_fields in_human_call_fields cleanupVoiceCall_def on_disconnect_def
      page_loaded_def)

text \<open>
  C8 fails on the code in the human phase.  The handler runs \<^verbatim>\<open>cleanupVoiceCall\<close>
  only, which never calls \<^verbatim>\<open>endWebRTCCall\<close>: after the disconnect the call counts as
  ended and the warning is shown, but the peer connection is still open and connected,
  the transfer microphone stream is still live and the transfer recogniser still runs.
  \<^verbatim>\<open>endWebRTCCall\<close>, which the hangup and failed-connection paths call, releases all
  three.  This is the defect of C6 seen from the disconnect.
\<close>

theorem disconnect_in_human_call_leaves_connection:
  "voiceCallActive in_human_call \<and>
   socket_connected in_human_call \<and>
   \<not> voiceCallActive (step (Socket On_disconnect) in_human_call) \<and>
   voiceSocket (step (Socket On_disconnect) in_human_call) = None \<and>
   toasts (step (Socket On_disconnect) in_human_call) =
     toasts in_human_call @ [(Warning, js ''Call disconnected'')] \<and>
   peerConnection (step (Socket On_disconnect) in_human_call) =
     Some \<lparr>pc_id = 0, pc_agent = js ''agent-1'', pc_session = js ''s1'', pc_streams = [1],
           localDescription = Some 7, remoteDescription = Some 8,
           connectionState = Connected, iceAdded = []\<rparr> \<and>
   localStream (step (Socket On_disconnect) in_human_call) = Some 1 \<and>
   streams (step (Socket On_disconnect) in_human_call) = [Live, Live] \<and>
   transferRecognition (step (Socket On_disconnect) in_human_call) =
     Some \<lparr>tr_session = js ''s1'', tr_agent = js ''agent-1'', tr_running = True\<rparr> \<and>
   peerConnection (endWebRTCCall in_human_call) = None \<and>
   localStream (endWebRTCCall in_human_call) = None \<and>
   streams (endWebRTCCall in_human_call) = [Live, Stopped] \<and>
   transferRecognition (endWebRTCCall in_human_call) = None"
  by (simp add: socket_connected_def in_human_call_fields deliver_def on_disconnect_def
      cleanupVoiceCall_def showToast_def endWebRTCCall_def Let_def hangup_target_def
      set_agent_status_def spawn_def emit_def)

section \<open>No agent available\<close>

text \<open>
  C9.  The \<^verbatim>\<open>no_agents_available\<close> handler shows a warning toast (the server's message,
  or \<^verbatim>\<open>All agents are busy. Please wait...\<close>) and sets the status line; it changes
  nothing else.  In particular the call stays active, the socket stays, nothing is
  emitted and nothing is torn down, whatever state the session is in.
\<close>

theorem no_agents_available_keeps_session:
  "on_no_agents_available message s =
     s\<lparr>toasts := toasts s @
          [(Warning, or_default message (js ''All agents are busy. Please wait...''))],
       agent_status := map_option (\<lambda>_. js ''Waiting for agent...'') (agent_status s)\<rparr> \<and>
   voiceCallActive (on_no_agents_available message s) = voiceCallActive s \<and>
   voiceSocket (on_no_agents_available message s) = voiceSocket s \<and>
   peerConnection (on_no_agents_available message s) = peerConnection s \<and>
   streams (on_no_agents_available message s) = streams s \<and>
   transfer_transcript (on_no_agents_available message s) = transfer_transcript s \<and>
   transferSessionId (on_no_agents_available message s) = transferSessionId s \<and>
   tasks (on_no_agents_available message s) = tasks s \<and>
   emitted (on_no_agents_available message s) = emitted s \<and>
   (socket_connected s \<longrightarrow>
      step (Socket (On_no_agents_available message)) s = on_no_agents_available message s)"
  by (auto simp: on_no_agents_available_def set_agent_status_def showToast_def deliver_def
      socket_connected_def split: option.splits)

theorem no_agents_available_keeps_session_witness:
  "socket_connected waiting_for_agent \<and>
   toasts (step (Socket (On_no_agents_available None)) waiting_for_agent) =
     toasts waiting_for_agent @ [(Warning, js ''All agents are busy. Please wait...'')] \<and>
   voiceCallActive (step (Socket (On_no_agents_available None)) waiting_for_agent) \<and>
   voiceSocket (step (Socket (On_no_agents_available None)) waiting_for_agent) =
     Some \<lparr>connected = True\<rparr> \<and>
   transfer_transcript (step (Socket (On_no_agents_available None)) waiting_for_agent) =
     Some [] \<and>
   emitted (step (Socket (On_no_agents_available None)) waiting_for_agent) =
     emitted waiting_for_agent"
proof -
  have c: "socket_connected waiting_for_agent"
    by (simp add: socket_connected_def waiting_for_agent_fields)
  note t = no_agents_available_keeps_session [of None waiting_for_agent]
  note e = t [THEN conjunct2, THEN conjunct2, THEN conjunct2, THEN conjunct2, THEN conjunct2,
      THEN conjunct2, THEN conjunct2, THEN conjunct2, THEN conjunct2, THEN mp, OF c]
  from c t show ?thesis
    unfolding e by (simp add: waiting_for_agent_fields)
qed

section \<open>Interim and final recognition results\<close>

lemma voice_result_socket: "voiceSocket (voice_result r s) = voiceSocket s"
  by (simp add: voice_result_def Let_def emit_def addVoiceTranscript_def split: option.splits)

lemma fold_voice_result:
  "emitted (fold voice_result rs s) = emitted s @
     (if socket_connected s then map User_message (map (\<lambda>r. trim (transcript r))
       (filter (\<lambda>r. isFinal r \<and> trim (transcript r) \<noteq> []) rs)) else []) \<and>
   voice_transcript (fold voice_result rs s) = voice_transcript s @
     (if socket_connected s then map customer_entry (map (\<lambda>r. trim (transcript r))
       (filter (\<lambda>r. isFinal r \<and> trim (transcript r) \<noteq> []) rs)) else [])"
proof (induction rs arbitrary: s)
  case Nil
  then show ?case by simp
next
  case (Cons r rs)
  have c: "socket_connected (voice_result r s) = socket_connected s"
    by (simp add: socket_connected_def voice_result_socket)
  have h: "emitted (voice_result r s) = emitted s @
      (if socket_connected s \<and> isFinal r \<and> trim (transcript r) \<noteq> []
       then [User_message (trim (transcript r))] else [])"
    "voice_transcript (voice_result r s) = voice_transcript s @
      (if socket_connected s \<and> isFinal r \<and> trim (transcript r) \<noteq> []
       then [customer_entry (trim (transcript r))] else [])"
    by (simp_all add: voice_result_def Let_def emit_def addVoiceTranscript_def
        socket_connected_def customer_entry_def split: option.splits)
  from Cons.IH [of "voice_result r s"] show ?case
    by (simp add: c h)
qed

lemma transfer_results_emitted:
  "emitted (transfer_results sid a rs s) = emitted s @
     (if voiceSocket s = None then [] else
        map (\<lambda>t. Call_transcript sid t (js ''customer'') a)
          (map (\<lambda>r. trim (transcript r))
            (filter (\<lambda>r. isFinal r \<and> trim (transcript r) \<noteq> []) rs)))"
proof (induction rs arbitrary: s)
  case Nil
  then show ?case by simp
next
  case (Cons r rs)
  show ?case
    by (simp add: Cons.IH Let_def emit_def addTransferTranscriptEntry_def split: option.splits)
qed

lemma transfer_results_transcript:
  "transfer_transcript (transfer_results sid a rs s) =
     map_option (\<lambda>es. es @ map customer_entry
        ((if voiceSocket s = None then take 1 else id)
          (map (\<lambda>r. trim (transcript r))
            (filter (\<lambda>r. isFinal r \<and> trim (transcript r) \<noteq> []) rs))))
      (transfer_transcript s)"
proof (induction rs arbitrary: s)
  case Nil
  then show ?case by (simp add: option.map_ident)
next
  case (Cons r rs)
  show ?case
    by (cases "transfer_transcript s")
      (simp_all add: Cons.IH Let_def emit_def addTransferTranscriptEntry_def customer_entry_def split: option.splits)
qed

lemma final_texts_no_final:
  "\<forall>r\<in>set (drop i results). \<not> isFinal r \<Longrightarrow> final_texts results i = []"
  by (simp add: final_texts_def filter_empty_conv)

text \<open>
  C5.  A recognition event adds to the emissions and to the transcripts exactly the
  trimmed texts of its final, non-blank results, in order: as \<^verbatim>\<open>user_message\<close> and
  customer entries in the AI phase (when the socket is connected), as
  \<^verbatim>\<open>call_transcript\<close> and customer entries in the human phase (the first such entry
  only when \<^verbatim>\<open>voiceSocket\<close> is \<^verbatim>\<open>null\<close>, where the \<^verbatim>\<open>emit\<close> throws).  So an event
  whose results are all interim emits nothing and appends nothing, in either phase.
\<close>

theorem only_final_results_are_sent:
  "emitted (voice_onresult results i s) =
     emitted s @ (if socket_connected s then map User_message (final_texts results i) else []) \<and>
   voice_transcript (voice_onresult results i s) =
     voice_transcript s @
       (if socket_connected s then map customer_entry (final_texts results i) else []) \<and>
   emitted (transfer_onresult results i s) =
     emitted s @
       (case transferRecognition s of
          None \<Rightarrow> []
        | Some tr \<Rightarrow>
            if voiceSocket s = None then []
            else map (\<lambda>t. Call_transcript (tr_session tr) t (js ''customer'') (tr_agent tr))
                   (final_texts results i)) \<and>
   transfer_transcript (transfer_onresult results i s) =
     (case transferRecognition s of
        None \<Rightarrow> transfer_transcript s
      | Some tr \<Rightarrow>
          map_option
            (\<lambda>es. es @ map customer_entry
               ((if voiceSocket s = None then take 1 else id) (final_texts results i)))
            (transfer_transcript s)) \<and>
   ((\<forall>r\<in>set (drop i results). \<not> isFinal r) \<longrightarrow>
      emitted (voice_onresult results i s) = emitted s \<and>
      voice_transcript (voice_onresult results i s) = voice_transcript s \<and>
      emitted (transfer_onresult results i s) = emitted s \<and>
      transfer_transcript (transfer_onresult results i s) = transfer_transcript s)"
proof -
  have v: "emitted (voice_onresult results i s) =
     emitted s @ (if socket_connected s then map User_message (final_texts results i) else [])"
    "voice_transcript (voice_onresult results i s) =
     voice_transcript s @
       (if socket_connected s then map customer_entry (final_texts results i) else [])"
    using fold_voice_result [of "drop i results" s]
    by (simp_all add: voice_onresult_def final_texts_def)
  have te: "emitted (transfer_onresult results i s) =
     emitted s @
       (case transferRecognition s of
          None \<Rightarrow> []
        | Some tr \<Rightarrow>
            if voiceSocket s = None then []
            else map (\<lambda>t. Call_transcript (tr_session tr) t (js ''customer'') (tr_agent tr))
                   (final_texts results i))"
    by (cases "transferRecognition s")
      (simp_all add: transfer_onresult_def transfer_results_emitted final_texts_def)
  have tt: "transfer_transcript (transfer_onresult results i s) =
     (case transferRecognition s of
        None \<Rightarrow> transfer_transcript s
      | Some tr \<Rightarrow>
          map_option
            (\<lambda>es. es @ map customer_entry
               ((if voiceSocket s = None then take 1 else id) (final_texts results i)))
            (transfer_transcript s))"
    by (cases "transferRecognition s")
      (simp_all add: transfer_onresult_def transfer_results_transcript final_texts_def)
  have n: "emitted (voice_onresult results i s) = emitted s \<and>
      voice_transcript (voice_onresult results i s) = voice_transcript s \<and>
      emitted (transfer_onresult results i s) = emitted s \<and>
      transfer_transcript (transfer_onresult results i s) = transfer_transcript s"
    if "\<forall>r\<in>set (drop i results). \<not> isFinal r"
    using final_texts_no_final [OF that]
    by (simp add: v te tt option.map_ident split: option.splits)
  from v te tt n show ?thesis by blast
qed

theorem only_final_results_are_sent_witness:
  "\<not> isFinal \<lparr>transcript = js ''hel'', isFinal = False\<rparr> \<and>
   \<not> isFinal \<lparr>transcript = js ''hello th'', isFinal = False\<rparr> \<and>
   emitted (voice_onresult [\<lparr>transcript = js ''hel'', isFinal = False\<rparr>,
                            \<lparr>transcript = js ''hello th'', isFinal = False\<rparr>] 0 in_ai_call)
     = emitted in_ai_call \<and>
   emitted (transfer_onresult [\<lparr>transcript = js ''hel'', isFinal = False\<rparr>,
                            \<lparr>transcript = js ''hello th'', isFinal = False\<rparr>] 0 in_human_call)
     = emitted in_human_call \<and>
   emitted (voice_onresult [\<lparr>transcript = js ''hel'', isFinal = False\<rparr>,
                            \<lparr>transcript = js '' hello there '', isFinal = True\<rparr>] 0 in_ai_call)
     = emitted in_ai_call @ [User_message (js ''hello there'')]"
proof -
  let ?interim = "[\<lparr>transcript = js ''hel'', isFinal = False\<rparr>,
                   \<lparr>transcript = js ''hello th'', isFinal = False\<rparr>]"
  let ?final = "[\<lparr>transcript = js ''hel'', isFinal = False\<rparr>,
                 \<lparr>transcript = js '' hello there '', isFinal = True\<rparr>]"
  have a: "\<forall>r\<in>set (drop 0 ?interim). \<not> isFinal r"
    by simp
  have b: "final_texts ?final 0 = [js ''hello there'']"
    by (simp add: final_texts_def string_defs)
  have c: "socket_connected in_ai_call"
    by (simp add: socket_connected_def in_ai_call_fields)
  note n1 = only_final_results_are_sent [of ?interim 0 in_ai_call,
      THEN conjunct2, THEN conjunct2, THEN conjunct2, THEN conjunct2, THEN mp, OF a]
  note n2 = only_final_results_are_sent [of ?interim 0 in_human_call,
      THEN conjunct2, THEN conjunct2, THEN conjunct2, THEN conjunct2, THEN mp, OF a]
  note t1 = n1 [THEN conjunct1]
  note t2 = n2 [THEN conjunct2, THEN conjunct2, THEN conjunct1]
  from only_final_results_are_sent [of ?final 0 in_ai_call, THEN conjunct1]
  have t3: "emitted (voice_onresult ?final 0 in_ai_call) =
      emitted in_ai_call @ [User_message (js ''hello there'')]"
    by (simp only: b c if_True list.map)
  have i: "\<not> isFinal \<lparr>transcript = js ''hel'', isFinal = False\<rparr>"
    "\<not> isFinal \<lparr>transcript = js ''hello th'', isFinal = False\<rparr>"
    by simp_all
  show ?thesis
    by (rule conjI [OF i(1) conjI [OF i(2) conjI [OF t1 conjI [OF t2 t3]]]])
qed


section \<open>The two transcripts\<close>

lemma keeps_refl: "keeps_entries s s"
  by (simp add: keeps_entries_def split: option.splits)

lemma keeps_trans: "keeps_entries s s' \<Longrightarrow> keeps_entries s' s'' \<Longrightarrow> keeps_entries s s''"
  by (auto simp: keeps_entries_def split: option.splits)

lemma keeps_same:
  "voice_transcript s' = voice_transcript s \<Longrightarrow> transfer_transcript s' = transfer_transcript s
     \<Longrightarrow> keeps_entries s s'"
  by (simp add: keeps_entries_def split: option.splits)

lemma removal_refl: "no_new_removal s s"
  by (simp add: no_new_removal_def)

lemma removal_trans: "no_new_removal s s' \<Longrightarrow> no_new_removal s' s'' \<Longrightarrow> no_new_removal s s''"
  by (simp add: no_new_removal_def)

lemma removal_same: "tasks s' = tasks s \<Longrightarrow> no_new_removal s s'"
  by (simp add: no_new_removal_def)

lemma endWebRTCCall_transcripts:
  "voice_transcript (endWebRTCCall s) = voice_transcript s"
  "transfer_transcript (endWebRTCCall s) = transfer_transcript s"
  by (simp_all add: endWebRTCCall_def Let_def hangup_target_def set_agent_status_def
      spawn_def emit_def split: option.splits)

lemma voice_result_calm:
  "keeps_entries s (voice_result r s)" "tasks (voice_result r s) = tasks s"
  by (simp_all add: keeps_entries_def voice_result_def Let_def emit_def addVoiceTranscript_def
      split: option.splits)

lemma voice_onresult_calm:
  "keeps_entries s (voice_onresult rs i s)" "tasks (voice_onresult rs i s) = tasks s"
proof -
  have "keeps_entries s (fold voice_result xs s) \<and> tasks (fold voice_result xs s) = tasks s"
    for xs
  proof (induction xs arbitrary: s)
    case Nil
    show ?case by (simp add: keeps_refl)
  next
    case (Cons r xs)
    from voice_result_calm [where s = s and r = r] Cons.IH [of "voice_result r s"]
    show ?case by (auto intro: keeps_trans)
  qed
  then show "keeps_entries s (voice_onresult rs i s)" "tasks (voice_onresult rs i s) = tasks s"
    by (simp_all add: voice_onresult_def)
qed

lemma transfer_results_calm:
  "keeps_entries s (transfer_results sid a rs s) \<and> tasks (transfer_results sid a rs s) = tasks s"
proof (induction rs arbitrary: s)
  case Nil
  show ?case by (simp add: keeps_refl)
next
  case (Cons r rs)
  let ?s1 = "addTransferTranscriptEntry (js ''customer'') (trim (transcript r)) s"
  let ?s2 = "emit (Call_transcript sid (trim (transcript r)) (js ''customer'') a) ?s1"
  have q1: "keeps_entries s ?s1" "keeps_entries s ?s2" "tasks ?s1 = tasks s" "tasks ?s2 = tasks s"
    by (simp_all add: keeps_entries_def addTransferTranscriptEntry_def emit_def
        split: option.splits)
  from q1 Cons.IH [of ?s2] Cons.IH [of s] show ?case
    by (auto simp: Let_def split: option.splits intro: keeps_trans)
qed

lemma transfer_onresult_calm:
  "keeps_entries s (transfer_onresult rs i s)" "tasks (transfer_onresult rs i s) = tasks s"
  by (simp_all add: transfer_onresult_def transfer_results_calm keeps_refl split: option.splits)

lemma flush_loop_calm:
  "voice_transcript (flush_loop tid a i s) = voice_transcript s"
  "transfer_transcript (flush_loop tid a i s) = transfer_transcript s"
  "no_new_removal s (flush_loop tid a i s)"
  by (simp_all add: flush_loop_def reset_pending_def suspend_def addIceCandidate_def
      no_new_removal_def split: option.splits)

lemma resume_calm:
  assumes "t \<noteq> RemoveTranscript"
  shows "keeps_entries s (resume tid t out s) \<and> no_new_removal s (resume tid t out s)"
proof (cases t)
  case StartMic
  then show ?thesis
    by (simp add: keeps_entries_def no_new_removal_def resume_def resume_StartMic_def
        initVoiceCall_def showToast_def split: outcome.splits option.splits)
next
  case (WebRTCMic a sid)
  then show ?thesis
    by (simp add: keeps_entries_def no_new_removal_def resume_def resume_WebRTCMic_def Let_def
        suspend_def webrtc_error_def showToast_def split: outcome.splits option.splits)
next
  case (CreateOffer a sid)
  then show ?thesis
    by (simp add: keeps_entries_def no_new_removal_def resume_def resume_CreateOffer_def
        suspend_def webrtc_error_def showToast_def split: outcome.splits option.splits)
next
  case (SetLocal a sid offer pid)
  then show ?thesis
    by (simp add: keeps_entries_def no_new_removal_def resume_def resume_SetLocal_def Let_def
        emit_def webrtc_error_def showToast_def split: outcome.splits option.splits)
next
  case (SetRemote pid answer)
  let ?s1 = "case peerConnection s of None \<Rightarrow> s
       | Some p \<Rightarrow> if pc_id p = pid
           then s\<lparr>peerConnection := Some (p\<lparr>remoteDescription := Some answer\<rparr>)\<rparr> else s"
  have a: "voice_transcript ?s1 = voice_transcript s"
    "transfer_transcript ?s1 = transfer_transcript s" "tasks ?s1 = tasks s"
    by (simp_all split: option.splits)
  have b: "keeps_entries s ?s1" "no_new_removal s ?s1"
    using a by (simp_all add: keeps_same removal_same)
  have c: "keeps_entries s (flush_loop tid (pendingIceCandidates ?s1) 0 ?s1)"
    "no_new_removal s (flush_loop tid (pendingIceCandidates ?s1) 0 ?s1)"
    using flush_loop_calm [where tid = tid and a = "pendingIceCandidates ?s1" and i = 0 and s = ?s1] a b(2)
    by (auto intro: keeps_same removal_trans)
  from b c SetRemote show ?thesis
    by (simp add: resume_def resume_SetRemote_def Let_def keeps_refl removal_refl
        split: outcome.splits)
next
  case (Flush a i)
  then show ?thesis
    using flush_loop_calm [where tid = tid and a = a and i = "Suc i" and s = s]
    by (simp add: resume_def keeps_same)
next
  case RemoveTranscript
  with assms show ?thesis by simp
qed

lemma settle_calm:
  assumes "tasks s t \<noteq> Some RemoveTranscript"
  shows "keeps_entries s (settle t out s) \<and> no_new_removal s (settle t out s)"
proof (cases "tasks s t")
  case None
  then show ?thesis by (simp add: settle_def keeps_refl removal_refl)
next
  case (Some k)
  with assms have k: "k \<noteq> RemoveTranscript" by simp
  let ?s0 = "s\<lparr>tasks := (tasks s)(t := None)\<rparr>"
  have a: "keeps_entries s ?s0" "no_new_removal s ?s0"
    by (simp_all add: keeps_entries_def no_new_removal_def split: option.splits)
  from resume_calm [OF k, where s = ?s0 and tid = t and out = out] a
  have "keeps_entries s (resume t k out ?s0) \<and> no_new_removal s (resume t k out ?s0)"
    by (blast intro: keeps_trans removal_trans)
  with Some show ?thesis by (simp add: settle_def)
qed

lemma settle_removal:
  "no_new_removal s (settle t out s)"
proof (cases "tasks s t = Some RemoveTranscript")
  case True
  then show ?thesis
    by (simp add: settle_def resume_def no_new_removal_def)
next
  case False
  then show ?thesis by (simp add: settle_calm)
qed


lemma handle_keeps:
  assumes "\<forall>g. e \<noteq> On_call_started g"
  shows "keeps_entries s (handle e s)"
proof (cases e)
  case On_connect
  then show ?thesis
    by (simp add: on_connect_def emit_def keeps_same)
next
  case On_disconnect
  then show ?thesis
    by (simp add: on_disconnect_def showToast_def cleanupVoiceCall_def keeps_same)
next
  case (On_call_started greeting)
  with assms show ?thesis by simp
next
  case (On_agent_response tx)
  then show ?thesis
    by (simp add: on_agent_response_def keeps_entries_def addVoiceTranscript_def
        split: option.splits)
next
  case (On_transfer_call sid reason message now)
  then show ?thesis
    by (simp add: on_transfer_call_def keeps_entries_def Let_def showToast_def emit_def
        set_agent_status_def showTransferTranscript_def split: option.splits)
next
  case (On_agent_ready_for_call agent_id agent_sid sid)
  then show ?thesis
    by (simp add: on_agent_ready_for_call_def keeps_entries_def Let_def showToast_def
        set_agent_status_def startWebRTCCall_def spawn_def split: option.splits)
next
  case (On_webrtc_answer answer)
  then show ?thesis
    by (simp add: on_webrtc_answer_def keeps_entries_def spawn_def split: option.splits)
next
  case (On_webrtc_ice_candidate c)
  then show ?thesis
    by (simp add: on_webrtc_ice_candidate_def keeps_entries_def push_pending_def
        addIceCandidate_def split: option.splits)
next
  case On_webrtc_hangup
  then show ?thesis
    by (simp add: on_webrtc_hangup_def showToast_def endWebRTCCall_transcripts keeps_same)
next
  case (On_call_transcript sp tx)
  then show ?thesis
    by (simp add: on_call_transcript_def keeps_entries_def addTransferTranscriptEntry_def
        split: option.splits)
next
  case (On_call_ended d)
  then show ?thesis
    by (simp add: on_call_ended_def showToast_def cleanupVoiceCall_def keeps_same)
next
  case (On_error m)
  then show ?thesis
    by (simp add: on_error_def showToast_def keeps_same)
next
  case (On_no_agents_available m)
  then show ?thesis
    by (simp add: on_no_agents_available_def keeps_entries_def showToast_def
        set_agent_status_def split: option.splits)
qed

lemma handle_removal:
  assumes "e \<noteq> On_webrtc_hangup"
  shows "no_new_removal s (handle e s)"
proof (cases e)
  case On_connect
  then show ?thesis
    by (simp add: on_connect_def emit_def removal_same)
next
  case On_disconnect
  then show ?thesis
    by (simp add: on_disconnect_def showToast_def cleanupVoiceCall_def removal_same)
next
  case (On_call_started greeting)
  then show ?thesis
    by (simp add: on_call_started_def Let_def showToast_def initSpeechRecognition_def
        addVoiceTranscript_def removal_same)
next
  case (On_agent_response tx)
  then show ?thesis
    by (simp add: on_agent_response_def addVoiceTranscript_def removal_same)
next
  case (On_transfer_call sid reason message now)
  then show ?thesis
    by (simp add: on_transfer_call_def no_new_removal_def Let_def showToast_def emit_def
        set_agent_status_def showTransferTranscript_def split: option.splits)
next
  case (On_agent_ready_for_call agent_id agent_sid sid)
  then show ?thesis
    by (simp add: on_agent_ready_for_call_def no_new_removal_def Let_def showToast_def
        set_agent_status_def startWebRTCCall_def spawn_def split: option.splits)
next
  case (On_webrtc_answer answer)
  then show ?thesis
    by (simp add: on_webrtc_answer_def no_new_removal_def spawn_def split: option.splits)
next
  case (On_webrtc_ice_candidate c)
  then show ?thesis
    by (simp add: on_webrtc_ice_candidate_def no_new_removal_def push_pending_def
        addIceCandidate_def split: option.splits)
next
  case On_webrtc_hangup
  with assms show ?thesis by simp
next
  case (On_call_transcript sp tx)
  then show ?thesis
    by (simp add: on_call_transcript_def no_new_removal_def addTransferTranscriptEntry_def
        split: option.splits)
next
  case (On_call_ended d)
  then show ?thesis
    by (simp add: on_call_ended_def showToast_def cleanupVoiceCall_def removal_same)
next
  case (On_error m)
  then show ?thesis
    by (simp add: on_error_def showToast_def removal_same)
next
  case (On_no_agents_available m)
  then show ?thesis
    by (simp add: on_no_agents_available_def no_new_removal_def showToast_def
        set_agent_status_def split: option.splits)
qed

lemma deliver_keeps:
  assumes "\<not> clears_transcript s (Socket e)"
  shows "keeps_entries s (deliver e s)"
proof (cases "voiceSocket s")
  case None
  then show ?thesis by (simp add: deliver_def keeps_refl)
next
  case (Some sock)
  show ?thesis
  proof (cases "\<exists>g. e = On_call_started g")
    case True
    with assms Some show ?thesis
      by (auto simp: deliver_def socket_connected_def keeps_refl)
  next
    case False
    then have n: "\<forall>g. e \<noteq> On_call_started g" by simp
    have a: "keeps_entries s (s\<lparr>voiceSocket := Some (sock\<lparr>connected := b\<rparr>)\<rparr>)" for b
      by (simp add: keeps_same)
    have "keeps_entries s (handle e (s\<lparr>voiceSocket := Some (sock\<lparr>connected := b\<rparr>)\<rparr>))" for b
      by (rule keeps_trans [OF a handle_keeps [OF n]])
    with Some handle_keeps [OF n, of s] show ?thesis
      by (auto simp: deliver_def keeps_refl)
  qed
qed

lemma deliver_removal:
  assumes "e \<noteq> On_webrtc_hangup"
  shows "no_new_removal s (deliver e s)"
proof (cases "voiceSocket s")
  case None
  then show ?thesis by (simp add: deliver_def removal_refl)
next
  case (Some sock)
  have a: "no_new_removal s (s\<lparr>voiceSocket := Some (sock\<lparr>connected := b\<rparr>)\<rparr>)" for b
    by (simp add: removal_same)
  have "no_new_removal s (handle e (s\<lparr>voiceSocket := Some (sock\<lparr>connected := b\<rparr>)\<rparr>))" for b
    by (rule removal_trans [OF a handle_removal [OF assms]])
  with Some handle_removal [OF assms, of s] show ?thesis
    by (auto simp: deliver_def removal_refl)
qed

lemma on_connectionstatechange_transcripts:
  "voice_transcript (on_connectionstatechange st s) = voice_transcript s"
  "transfer_transcript (on_connectionstatechange st s) = transfer_transcript s"
  by (simp_all add: on_connectionstatechange_def Let_def endWebRTCCall_transcripts
      startTransferSpeechRecognition_def showToast_def set_agent_status_def
      split: option.splits)

lemma keeps_step:
  assumes "\<not> clears_transcript s e"
  shows "keeps_entries s (step e s)"
proof (cases e)
  case (Click_start nv pv)
  then show ?thesis
    by (simp add: startVoiceCall_def Let_def showToast_def spawn_def keeps_same)
next
  case Click_end
  then show ?thesis
    by (simp add: endVoiceCall_def cleanupVoiceCall_def emit_def keeps_same
        split: option.splits)
next
  case Click_mute
  then show ?thesis
    by (simp add: toggleVoiceMute_def Let_def showToast_def keeps_same)
next
  case Click_end_webrtc
  then show ?thesis
    by (simp add: endWebRTCCall_transcripts keeps_same keeps_refl)
next
  case (Settle t out)
  with assms show ?thesis
    by (simp add: settle_calm)
next
  case (Socket se)
  with assms show ?thesis
    by (simp add: deliver_keeps)
next
  case (Voice_result rs i)
  then show ?thesis
    by (simp add: voice_onresult_calm)
next
  case (Transfer_result rs i)
  then show ?thesis
    by (simp add: transfer_onresult_calm)
next
  case (Pc_state st)
  then show ?thesis
    by (simp add: on_connectionstatechange_transcripts keeps_same)
next
  case (Pc_icecandidate c)
  then show ?thesis
    by (simp add: on_icecandidate_def emit_def keeps_same split: option.splits)
qed

lemma removal_step:
  assumes "\<not> calls_endWebRTCCall e"
  shows "no_new_removal s (step e s)"
proof (cases e)
  case (Click_start nv pv)
  then show ?thesis
    by (simp add: startVoiceCall_def Let_def showToast_def spawn_def no_new_removal_def)
next
  case Click_end
  then show ?thesis
    by (simp add: endVoiceCall_def cleanupVoiceCall_def emit_def removal_same
        split: option.splits)
next
  case Click_mute
  then show ?thesis
    by (simp add: toggleVoiceMute_def Let_def showToast_def removal_same)
next
  case Click_end_webrtc
  with assms show ?thesis by simp
next
  case (Settle t out)
  then show ?thesis
    by (simp add: settle_removal)
next
  case (Socket se)
  with assms show ?thesis
    by (simp add: deliver_removal)
next
  case (Voice_result rs i)
  then show ?thesis
    by (simp add: voice_onresult_calm removal_same)
next
  case (Transfer_result rs i)
  then show ?thesis
    by (simp add: transfer_onresult_calm removal_same)
next
  case (Pc_state st)
  with assms show ?thesis
    by (simp add: on_connectionstatechange_def Let_def no_new_removal_def
        startTransferSpeechRecognition_def showToast_def set_agent_status_def
        split: option.splits)
next
  case (Pc_icecandidate c)
  then show ?thesis
    by (simp add: on_icecandidate_def emit_def removal_same split: option.splits)
qed

lemma keeps_run: "never_cleared s evs \<Longrightarrow> keeps_entries s (run evs s)"
proof (induction evs arbitrary: s)
  case Nil
  show ?case by (simp add: run_def keeps_refl)
next
  case (Cons e evs)
  then have "keeps_entries s (step e s)" "keeps_entries (step e s) (run evs (step e s))"
    by (simp_all add: keeps_step)
  then have "keeps_entries s (run evs (step e s))"
    by (rule keeps_trans)
  then show ?case by (simp add: run_def)
qed

text \<open>
  C3, as the code has it.  The page keeps two transcript sequences.
  \<^verbatim>\<open>addVoiceTranscript\<close> appends its entry at the end of the AI-phase transcript and
  leaves the transfer transcript alone.  \<^verbatim>\<open>addTransferTranscriptEntry\<close> appends its
  entry at the end of the transfer transcript when the page has that element, does
  nothing when it has not, and leaves the AI-phase transcript alone.  Whatever else
  happens to the page, every entry of either transcript stays in its place, in one step
  and over a whole run, with two exceptions that take a whole sequence away: a
  \<^verbatim>\<open>call_started\<close> that reaches the page replaces the AI-phase transcript by the greeting
  and leaves the transfer transcript alone, and the timeout that removes the transfer
  transcript leaves the AI-phase transcript alone.  That timeout is set by nothing but a
  call of \<^verbatim>\<open>endWebRTCCall\<close>.
\<close>

theorem transcript_entries_stay_in_place:
  "voice_transcript (addVoiceTranscript sp tx s) =
     voice_transcript s @ [\<lparr>entry_speaker = sp, entry_text = tx\<rparr>] \<and>
   transfer_transcript (addVoiceTranscript sp tx s) = transfer_transcript s \<and>
   transfer_transcript (addTransferTranscriptEntry sp tx s) =
     map_option (\<lambda>es. es @ [\<lparr>entry_speaker = sp, entry_text = tx\<rparr>]) (transfer_transcript s) \<and>
   voice_transcript (addTransferTranscriptEntry sp tx s) = voice_transcript s \<and>
   (\<not> clears_transcript s e \<longrightarrow> keeps_entries s (step e s)) \<and>
   (never_cleared s evs \<longrightarrow> keeps_entries s (run evs s)) \<and>
   (socket_connected s \<longrightarrow>
      voice_transcript (step (Socket (On_call_started greeting)) s) =
        [\<lparr>entry_speaker = js ''agent'', entry_text = greeting\<rparr>] \<and>
      transfer_transcript (step (Socket (On_call_started greeting)) s) =
        transfer_transcript s) \<and>
   (tasks s t = Some RemoveTranscript \<longrightarrow>
      transfer_transcript (step (Settle t out) s) = None \<and>
      voice_transcript (step (Settle t out) s) = voice_transcript s) \<and>
   (tasks (step e s) t = Some RemoveTranscript \<longrightarrow>
      tasks s t = Some RemoveTranscript \<or> calls_endWebRTCCall e)"
proof -
  have f: "voice_transcript (addVoiceTranscript sp tx s) =
     voice_transcript s @ [\<lparr>entry_speaker = sp, entry_text = tx\<rparr>]"
    "transfer_transcript (addVoiceTranscript sp tx s) = transfer_transcript s"
    "transfer_transcript (addTransferTranscriptEntry sp tx s) =
     map_option (\<lambda>es. es @ [\<lparr>entry_speaker = sp, entry_text = tx\<rparr>]) (transfer_transcript s)"
    "voice_transcript (addTransferTranscriptEntry sp tx s) = voice_transcript s"
    by (simp_all add: addVoiceTranscript_def addTransferTranscriptEntry_def
        split: option.splits)
  have c: "socket_connected s \<longrightarrow>
      voice_transcript (step (Socket (On_call_started greeting)) s) =
        [\<lparr>entry_speaker = js ''agent'', entry_text = greeting\<rparr>] \<and>
      transfer_transcript (step (Socket (On_call_started greeting)) s) =
        transfer_transcript s"
    by (auto simp: socket_connected_def deliver_def on_call_started_def Let_def
        showToast_def initSpeechRecognition_def addVoiceTranscript_def split: option.splits)
  have r: "tasks s t = Some RemoveTranscript \<longrightarrow>
      transfer_transcript (step (Settle t out) s) = None \<and>
      voice_transcript (step (Settle t out) s) = voice_transcript s"
    by (simp add: settle_def resume_def)
  have o: "tasks (step e s) t = Some RemoveTranscript \<longrightarrow>
      tasks s t = Some RemoveTranscript \<or> calls_endWebRTCCall e"
    using removal_step [of e s] by (auto simp: no_new_removal_def)
  have k1: "\<not> clears_transcript s e \<longrightarrow> keeps_entries s (step e s)"
    by (simp add: keeps_step)
  have k2: "never_cleared s evs \<longrightarrow> keeps_entries s (run evs s)"
    by (simp add: keeps_run)
  from f k1 k2 c r o show ?thesis
    by (intro conjI)
qed


theorem transcript_entries_stay_in_place_witness:
  "\<not> clears_transcript in_ai_call (Socket (On_agent_response (js ''ok''))) \<and>
   keeps_entries in_ai_call (step (Socket (On_agent_response (js ''ok''))) in_ai_call) \<and>
   never_cleared in_human_call
     [Socket (On_call_transcript (js ''agent'') (js ''hello'')), Click_end_webrtc] \<and>
   keeps_entries in_human_call
     (run [Socket (On_call_transcript (js ''agent'') (js ''hello'')), Click_end_webrtc]
        in_human_call) \<and>
   socket_connected in_ai_call \<and>
   voice_transcript (step (Socket (On_call_started (js ''Hi again''))) in_ai_call) =
     [\<lparr>entry_speaker = js ''agent'', entry_text = js ''Hi again''\<rparr>] \<and>
   tasks (step Click_end_webrtc in_human_call) 3 = Some RemoveTranscript \<and>
   transfer_transcript
     (step (Settle 3 (Resolved 0)) (step Click_end_webrtc in_human_call)) = None \<and>
   (tasks in_human_call 3 = Some RemoveTranscript \<or> calls_endWebRTCCall Click_end_webrtc)"
proof -
  let ?e = "Socket (On_agent_response (js ''ok''))"
  let ?evs = "[Socket (On_call_transcript (js ''agent'') (js ''hello'')), Click_end_webrtc]"
  let ?s = "step Click_end_webrtc in_human_call"
  have h1: "\<not> clears_transcript in_ai_call ?e"
    by simp
  have h2: "never_cleared in_human_call ?evs"
    by simp
  have h3: "socket_connected in_ai_call"
    by (simp add: socket_connected_def in_ai_call_fields)
  have h4: "tasks ?s 3 = Some RemoveTranscript"
    by (simp add: in_human_call_fields endWebRTCCall_def Let_def hangup_target_def
        set_agent_status_def spawn_def emit_def)
  note k1 = transcript_entries_stay_in_place [where s = in_ai_call and e = ?e,
      THEN conjunct2, THEN conjunct2, THEN conjunct2, THEN conjunct2, THEN conjunct1,
      THEN mp, OF h1]
  note k2 = transcript_entries_stay_in_place [where s = in_human_call and evs = ?evs,
      THEN conjunct2, THEN conjunct2, THEN conjunct2, THEN conjunct2, THEN conjunct2,
      THEN conjunct1, THEN mp, OF h2]
  note c = transcript_entries_stay_in_place [where s = in_ai_call
      and greeting = "js ''Hi again''",
      THEN conjunct2, THEN conjunct2, THEN conjunct2, THEN conjunct2, THEN conjunct2,
      THEN conjunct2, THEN conjunct1, THEN mp, OF h3, THEN conjunct1]
  note r = transcript_entries_stay_in_place [where s = ?s and t = 3 and out = "Resolved 0",
      THEN conjunct2, THEN conjunct2, THEN conjunct2, THEN conjunct2, THEN conjunct2,
      THEN conjunct2, THEN conjunct2, THEN conjunct1, THEN mp, OF h4, THEN conjunct1]
  note o = transcript_entries_stay_in_place [where s = in_human_call
      and e = Click_end_webrtc and t = 3,
      THEN conjunct2, THEN conjunct2, THEN conjunct2, THEN conjunct2, THEN conjunct2,
      THEN conjunct2, THEN conjunct2, THEN conjunct2, THEN mp, OF h4]
  from h1 k1 h2 k2 h3 c h4 r o show ?thesis
    by (intro conjI)
qed

text \<open>
  C3 as stated fails: the entries of the two phases do not go to one sequence.  While
  the customer waits for an agent, an AI-phase entry followed by a human-phase entry
  leaves the page as the same two entries in the opposite order do, so no sequence on the
  page holds both in arrival order; before the transfer transcript exists a
  human-phase entry is not recorded at all; and three seconds after the customer has
  ended the transfer call the transfer transcript is gone with the entries it had.
\<close>

theorem two_transcripts_not_one_sequence:
  "addTransferTranscriptEntry (js ''customer'') (js ''hi'')
     (addVoiceTranscript (js ''agent'') (js ''one moment'') waiting_for_agent) =
   addVoiceTranscript (js ''agent'') (js ''one moment'')
     (addTransferTranscriptEntry (js ''customer'') (js ''hi'') waiting_for_agent) \<and>
   voice_transcript (addTransferTranscriptEntry (js ''customer'') (js ''hi'')
     (addVoiceTranscript (js ''agent'') (js ''one moment'') waiting_for_agent)) =
     voice_transcript waiting_for_agent @
       [\<lparr>entry_speaker = js ''agent'', entry_text = js ''one moment''\<rparr>] \<and>
   transfer_transcript (addTransferTranscriptEntry (js ''customer'') (js ''hi'')
     (addVoiceTranscript (js ''agent'') (js ''one moment'') waiting_for_agent)) =
     Some [\<lparr>entry_speaker = js ''customer'', entry_text = js ''hi''\<rparr>] \<and>
   addTransferTranscriptEntry (js ''customer'') (js ''hi'') in_ai_call = in_ai_call \<and>
   transfer_transcript
     (run [Socket (On_call_transcript (js ''agent'') (js ''hello''))] in_human_call) =
     Some [\<lparr>entry_speaker = js ''agent'', entry_text = js ''hello''\<rparr>] \<and>
   transfer_transcript
     (run [Socket (On_call_transcript (js ''agent'') (js ''hello'')), Click_end_webrtc,
           Settle 3 (Resolved 0)] in_human_call) = None"
proof -
  have "transfer_transcript
     (run [Socket (On_call_transcript (js ''agent'') (js ''hello''))] in_human_call) =
     Some [\<lparr>entry_speaker = js ''agent'', entry_text = js ''hello''\<rparr>]"
    "transfer_transcript
     (run [Socket (On_call_transcript (js ''agent'') (js ''hello'')), Click_end_webrtc,
           Settle 3 (Resolved 0)] in_human_call) = None"
    by (simp_all add: in_human_call_fields page_defs js_def)
  then show ?thesis
    by (simp add: addVoiceTranscript_def addTransferTranscriptEntry_def
        waiting_for_agent_fields in_ai_call_fields)
qed

section \<open>Two agents accept\<close>

text \<open>
  Once \<^verbatim>\<open>window.peerConnection\<close> is set the handler ignores a ready event, as its
  comment says.
\<close>

lemma ready_ignored_once_connection_exists:
  "peerConnection s \<noteq> None \<Longrightarrow> on_agent_ready_for_call agent_id agent_sid session_id s = s"
  by (auto simp: on_agent_ready_for_call_def)

text \<open>
  C1 fails on the code.  The handler tests \<^verbatim>\<open>window.peerConnection\<close>, which
  \<^verbatim>\<open>startWebRTCCall\<close> assigns only after \<^verbatim>\<open>await getUserMedia\<close>.  A second ready event
  that arrives before that promise settles passes the test: two connections are created,
  two offers are sent, one to each agent, a third microphone stream is acquired, and
  \<^verbatim>\<open>window.agentSocketId\<close> ends up as the second agent's address.
\<close>

theorem second_ready_during_setup_creates_second_connection:
  "pcs_created waiting_for_agent = 0 \<and>
   pcs_created (run two_agents_ready waiting_for_agent) = 2 \<and>
   emitted (run two_agents_ready waiting_for_agent) =
     emitted waiting_for_agent @
       [Webrtc_offer (js ''s1'') 7 (js ''agent-1''),
        Webrtc_offer (js ''s1'') 9 (js ''agent-2'')] \<and>
   agentSocketId (run two_agents_ready waiting_for_agent) = Some (js ''agent-2'') \<and>
   streams (run two_agents_ready waiting_for_agent) = [Live, Live, Live]"
  by (simp add: two_agents_ready_def waiting_for_agent_fields page_defs)

section \<open>Microphone streams at the end of a call\<close>

text \<open>
  C6 fails on the code.  The stream that \<^verbatim>\<open>getUserMedia\<close> hands to
  \<^verbatim>\<open>startVoiceCall\<close> is dropped unstopped, and \<^verbatim>\<open>cleanupVoiceCall\<close> stops no track:
  after End Call, \<^verbatim>\<open>call_ended\<close> or a disconnect in the AI phase the stream is still
  live.  In the human phase End Call and a disconnect leave the transfer stream live as
  well; only \<^verbatim>\<open>endWebRTCCall\<close> (peer hangup, failed connection) stops that one, and it
  leaves the first stream live.
\<close>

theorem microphone_streams_left_live:
  "streams in_ai_call = [Live] \<and>
   streams (step Click_end in_ai_call) = [Live] \<and>
   streams (step (Socket (On_call_ended (Some 42))) in_ai_call) = [Live] \<and>
   streams (step (Socket On_disconnect) in_ai_call) = [Live] \<and>
   streams in_human_call = [Live, Live] \<and>
   streams (step Click_end in_human_call) = [Live, Live] \<and>
   localStream (step Click_end in_human_call) = Some 1 \<and>
   streams (step (Socket On_disconnect) in_human_call) = [Live, Live] \<and>
   streams (step (Socket On_webrtc_hangup) in_human_call) = [Live, Stopped] \<and>
   streams (step (Pc_state Failed) in_human_call) = [Live, Stopped]"
  by (simp add: in_ai_call_fields in_human_call_fields page_defs)

section \<open>ICE candidates that arrive before the answer\<close>

lemma ice_before_description:
  assumes "peerConnection s = Some p" "remoteDescription p = None" "socket_connected s"
  shows "run (ice_events cs) s =
     s\<lparr>arrays := (arrays s)
         (pendingIceCandidates s := arrays s (pendingIceCandidates s) @ cs)\<rparr>"
  using assms
proof (induction cs arbitrary: s)
  case Nil
  then show ?case by (simp add: run_def ice_events_def)
next
  case (Cons c cs)
  let ?s1 = "push_pending c s"
  from Cons.prems have st: "step (Socket (On_webrtc_ice_candidate (Some c))) s = ?s1"
    by (simp add: deliver_def socket_connected_def on_webrtc_ice_candidate_def
        split: option.splits)
  have p: "peerConnection ?s1 = Some p" "socket_connected ?s1"
    using Cons.prems by (simp_all add: push_pending_def socket_connected_def)
  have "run (ice_events (c # cs)) s = run (ice_events cs) ?s1"
    using st by (simp add: run_def ice_events_def)
  also have "\<dots> = ?s1\<lparr>arrays := (arrays ?s1)
         (pendingIceCandidates ?s1 := arrays ?s1 (pendingIceCandidates ?s1) @ cs)\<rparr>"
    by (rule Cons.IH [OF p(1) Cons.prems(2) p(2)])
  also have "\<dots> = s\<lparr>arrays := (arrays s)
         (pendingIceCandidates s := arrays s (pendingIceCandidates s) @ c # cs)\<rparr>"
    by (simp add: push_pending_def)
  finally show ?case .
qed

lemma flush_runs_to_end:
  assumes "tasks s t = Some (Flush a i)" "peerConnection s = Some p"
    "i < length (arrays s a)" "length outs = length (arrays s a) - i"
  shows "peerConnection (run (map (Settle t) outs) s) =
           Some (p\<lparr>iceAdded := iceAdded p @ drop (Suc i) (arrays s a)\<rparr>) \<and>
         arrays (run (map (Settle t) outs) s)
           (pendingIceCandidates (run (map (Settle t) outs) s)) = [] \<and>
         tasks (run (map (Settle t) outs) s) t = None"
  using assms
proof (induction outs arbitrary: s i p)
  case Nil
  then show ?case by simp
next
  case (Cons out outs)
  let ?A = "arrays s a"
  show ?case
  proof (cases "Suc i < length ?A")
    case True
    let ?p1 = "p\<lparr>iceAdded := iceAdded p @ [?A ! Suc i]\<rparr>"
    let ?s1 = "s\<lparr>tasks := (tasks s)(t \<mapsto> Flush a (Suc i)), peerConnection := Some ?p1\<rparr>"
    from True Cons.prems have st: "settle t out s = ?s1"
      by (simp add: settle_def resume_def flush_loop_def suspend_def addIceCandidate_def)
    have ih: "peerConnection (run (map (Settle t) outs) ?s1) =
           Some (?p1\<lparr>iceAdded := iceAdded ?p1 @ drop (Suc (Suc i)) (arrays ?s1 a)\<rparr>) \<and>
         arrays (run (map (Settle t) outs) ?s1)
           (pendingIceCandidates (run (map (Settle t) outs) ?s1)) = [] \<and>
         tasks (run (map (Settle t) outs) ?s1) t = None"
      using True Cons.prems by (intro Cons.IH) simp_all
    have d: "drop (Suc i) ?A = ?A ! Suc i # drop (Suc (Suc i)) ?A"
      using True by (simp add: Cons_nth_drop_Suc)
    have r: "run (map (Settle t) (out # outs)) s = run (map (Settle t) outs) ?s1"
      using st by (simp add: run_def)
    show ?thesis
      unfolding r using ih by (simp add: d)
  next
    case False
    with Cons.prems(3) have len: "length ?A = Suc i"
      by arith
    with Cons.prems(4) have outs: "outs = []"
      by simp
    from False Cons.prems have st: "settle t out s =
        reset_pending (s\<lparr>tasks := (tasks s)(t := None)\<rparr>)"
      by (simp add: settle_def resume_def flush_loop_def)
    show ?thesis
      using Cons.prems(2) len
      by (simp add: outs run_def st reset_pending_def)
  qed
qed


lemma run_append: "run (xs @ ys) s = run ys (run xs s)"
  by (simp add: run_def)

lemma run_Cons: "run (e # es) s = run es (step e s)"
  by (simp add: run_def)

lemma head_then_rest: "q \<noteq> [] \<Longrightarrow> (xs @ [q ! 0]) @ drop (Suc 0) q = xs @ q"
  by (cases q) simp_all

text \<open>
  C2.  Take a page whose connection has no remote description yet and whose socket is
  connected.  The candidates \<open>cs\<close> that arrive now are all appended to the queue, in
  order, and none is applied.  When \<^verbatim>\<open>webrtc_answer\<close> then arrives, further candidates
  \<open>cs'\<close> arrive while \<^verbatim>\<open>setRemoteDescription\<close> is pending, that promise resolves and the
  awaits of the flush loop settle one by one (resolved or rejected), the connection has
  the remote description and has been given everything that was queued, each candidate
  once, in arrival order, after whatever it had been given before; and the queue is
  empty.
\<close>

theorem queued_candidates_flushed_in_order:
  assumes pc: "peerConnection s = Some p" and nodesc: "remoteDescription p = None"
    and conn: "socket_connected s"
    and outs: "length outs = length (arrays s (pendingIceCandidates s) @ cs @ cs')"
  shows "arrays (run (ice_events cs) s) (pendingIceCandidates (run (ice_events cs) s)) =
           arrays s (pendingIceCandidates s) @ cs \<and>
         peerConnection (run (ice_events cs) s) = Some p \<and>
         peerConnection
           (run (ice_events cs @ [Socket (On_webrtc_answer (Some answer))] @ ice_events cs' @
                 [Settle (next_task s) (Resolved v)] @ map (Settle (next_task s)) outs) s) =
           Some (p\<lparr>remoteDescription := Some answer,
                   iceAdded := iceAdded p @ arrays s (pendingIceCandidates s) @ cs @ cs'\<rparr>) \<and>
         arrays
           (run (ice_events cs @ [Socket (On_webrtc_answer (Some answer))] @ ice_events cs' @
                 [Settle (next_task s) (Resolved v)] @ map (Settle (next_task s)) outs) s)
           (pendingIceCandidates
             (run (ice_events cs @ [Socket (On_webrtc_answer (Some answer))] @ ice_events cs' @
                   [Settle (next_task s) (Resolved v)] @ map (Settle (next_task s)) outs) s)) = []"
proof -
  let ?a = "pendingIceCandidates s"
  let ?t = "next_task s"
  let ?q = "arrays s ?a @ cs @ cs'"
  let ?evs = "ice_events cs @ [Socket (On_webrtc_answer (Some answer))] @ ice_events cs' @
                 [Settle (next_task s) (Resolved v)] @ map (Settle (next_task s)) outs"
  define s1 where "s1 = run (ice_events cs) s"
  define s2 where "s2 = deliver (On_webrtc_answer (Some answer)) s1"
  define s3 where "s3 = run (ice_events cs') s2"
  define s4 where "s4 = settle ?t (Resolved v) s3"
  have r: "run ?evs s = run (map (Settle ?t) outs) s4"
    by (simp add: run_append run_Cons s1_def s2_def s3_def s4_def)
  have s1: "s1 = s\<lparr>arrays := (arrays s)(?a := arrays s ?a @ cs)\<rparr>"
    unfolding s1_def by (rule ice_before_description [OF pc nodesc conn])
  from conn obtain sock where sock: "voiceSocket s = Some sock" "connected sock"
    by (auto simp: socket_connected_def split: option.splits)
  have s2: "peerConnection s2 = Some p" "socket_connected s2" "pendingIceCandidates s2 = ?a"
    "arrays s2 ?a = arrays s ?a @ cs" "tasks s2 ?t = Some (SetRemote (pc_id p) answer)"
    using pc sock
    by (simp_all add: s2_def s1 deliver_def socket_connected_def on_webrtc_answer_def
        spawn_def)
  have s3: "s3 = s2\<lparr>arrays := (arrays s2)(?a := ?q)\<rparr>"
    unfolding s3_def
    using ice_before_description [OF s2(1) nodesc s2(2), of cs'] by (simp add: s2)
  have s3': "peerConnection s3 = Some p" "pendingIceCandidates s3 = ?a" "arrays s3 ?a = ?q"
    "tasks s3 ?t = Some (SetRemote (pc_id p) answer)"
    by (simp_all add: s3 s2)
  define q where "q = ?q"
  have s3q: "arrays s3 ?a = q"
    by (simp add: s3' q_def)
  have outs': "length outs = length q"
    using outs by (simp add: q_def)
  have final: "peerConnection (run (map (Settle ?t) outs) s4) =
       Some (p\<lparr>remoteDescription := Some answer, iceAdded := iceAdded p @ q\<rparr>) \<and>
     arrays (run (map (Settle ?t) outs) s4)
       (pendingIceCandidates (run (map (Settle ?t) outs) s4)) = []"
  proof (cases "q = []")
    case True
    with outs' have "outs = []" by simp
    moreover from True s3'(1,2,4) s3q have "peerConnection s4 =
        Some (p\<lparr>remoteDescription := Some answer\<rparr>) \<and>
        arrays s4 (pendingIceCandidates s4) = []"
      by (simp add: s4_def settle_def resume_def resume_SetRemote_def Let_def)
    ultimately show ?thesis using True by (simp add: run_def)
  next
    case False
    let ?p1 = "p\<lparr>remoteDescription := Some answer, iceAdded := iceAdded p @ [q ! 0]\<rparr>"
    from False s3'(1,2,4) s3q
    have s4: "tasks s4 ?t = Some (Flush ?a 0)" "peerConnection s4 = Some ?p1"
      "arrays s4 ?a = q"
      by (simp_all add: s4_def settle_def resume_def resume_SetRemote_def Let_def
          flush_loop_def suspend_def addIceCandidate_def)
    from False have pos: "0 < length (arrays s4 ?a)"
      by (simp add: s4)
    from outs' have len: "length outs = length (arrays s4 ?a) - 0"
      by (simp add: s4)
    have e: "iceAdded ?p1 @ drop (Suc 0) q = iceAdded p @ q"
      using head_then_rest [OF False] by simp
    from flush_runs_to_end [OF s4(1) s4(2) pos len]
    show ?thesis
      unfolding s4(3) e by simp
  qed
  have q: "arrays s1 (pendingIceCandidates s1) = arrays s ?a @ cs" "peerConnection s1 = Some p"
    using pc by (simp_all add: s1)
  from q final show ?thesis
    unfolding r s1_def q_def by simp
qed


theorem queued_candidates_flushed_in_order_witness:
  "peerConnection offer_sent =
     Some \<lparr>pc_id = 0, pc_agent = js ''agent-1'', pc_session = js ''s1'', pc_streams = [1],
           localDescription = Some 7, remoteDescription = None,
           connectionState = New, iceAdded = []\<rparr> \<and>
   socket_connected offer_sent \<and>
   arrays (run (ice_events [11, 12, 13]) offer_sent)
     (pendingIceCandidates (run (ice_events [11, 12, 13]) offer_sent)) = [11, 12, 13] \<and>
   peerConnection
     (run (ice_events [11, 12, 13] @ [Socket (On_webrtc_answer (Some 8))] @ ice_events [14] @
           [Settle 2 (Resolved 0)] @
           map (Settle 2) [Resolved 0, Rejected (js ''bad''), Resolved 0, Resolved 0])
        offer_sent) =
     Some \<lparr>pc_id = 0, pc_agent = js ''agent-1'', pc_session = js ''s1'', pc_streams = [1],
           localDescription = Some 7, remoteDescription = Some 8,
           connectionState = New, iceAdded = [11, 12, 13, 14]\<rparr>"
proof -
  let ?p = "\<lparr>pc_id = 0, pc_agent = js ''agent-1'', pc_session = js ''s1'', pc_streams = [1],
           localDescription = Some 7, remoteDescription = None,
           connectionState = New, iceAdded = []\<rparr>"
  have pc: "peerConnection offer_sent = Some ?p"
    by (rule offer_sent_fields)
  have nodesc: "remoteDescription ?p = None"
    by simp
  have conn: "socket_connected offer_sent"
    by (simp add: socket_connected_def offer_sent_fields)
  have outs: "length [Resolved 0, Rejected (js ''bad''), Resolved 0, Resolved 0] =
      length (arrays offer_sent (pendingIceCandidates offer_sent) @ [11, 12, 13] @ [14])"
    by (simp add: offer_sent_fields)
  from queued_candidates_flushed_in_order [OF pc nodesc conn outs, of 8 0]
  show ?thesis
    by (simp add: pc conn offer_sent_fields)
qed

section \<open>Starting a call\<close>

lemma quiet_refl: "quiet s s"
  by (simp add: quiet_def)

lemma quiet_trans: "quiet s s' \<Longrightarrow> quiet s' s'' \<Longrightarrow> quiet s s''"
  by (simp add: quiet_def)

lemma quiet_endWebRTCCall: "quiet s (endWebRTCCall s)"
  by (simp add: quiet_def endWebRTCCall_def Let_def hangup_target_def set_agent_status_def
      spawn_def emit_def split: option.splits)

lemma quiet_cleanupVoiceCall: "quiet s (cleanupVoiceCall s)"
  by (simp add: quiet_def cleanupVoiceCall_def)

lemma quiet_voice_result: "quiet s (voice_result r s)"
  by (simp add: quiet_def voice_result_def Let_def emit_def addVoiceTranscript_def
      split: option.splits)

lemma quiet_voice_onresult: "quiet s (voice_onresult rs i s)"
proof -
  have "quiet s (fold voice_result xs s)" for xs
  proof (induction xs arbitrary: s)
    case Nil
    show ?case by (simp add: quiet_refl)
  next
    case (Cons r xs)
    from quiet_voice_result [of s r] Cons.IH [of "voice_result r s"]
    show ?case by (simp add: quiet_trans)
  qed
  then show ?thesis by (simp add: voice_onresult_def)
qed

lemma quiet_transfer_results: "quiet s (transfer_results sid a rs s)"
proof (induction rs arbitrary: s)
  case Nil
  show ?case by (simp add: quiet_refl)
next
  case (Cons r rs)
  let ?s1 = "addTransferTranscriptEntry (js ''customer'') (trim (transcript r)) s"
  let ?s2 = "emit (Call_transcript sid (trim (transcript r)) (js ''customer'') a) ?s1"
  have q1: "quiet s ?s1" "quiet s ?s2"
    by (simp_all add: quiet_def addTransferTranscriptEntry_def emit_def split: option.splits)
  from q1 Cons.IH [of ?s2] Cons.IH [of s] show ?case
    by (auto simp: Let_def split: option.splits intro: quiet_trans)
qed

lemma quiet_transfer_onresult: "quiet s (transfer_onresult rs i s)"
  by (simp add: transfer_onresult_def quiet_transfer_results quiet_refl split: option.splits)

lemma quiet_toggleVoiceMute: "quiet s (toggleVoiceMute s)"
  by (simp add: quiet_def toggleVoiceMute_def Let_def showToast_def)

lemma quiet_endVoiceCall: "quiet s (endVoiceCall s)"
  by (simp add: quiet_def endVoiceCall_def cleanupVoiceCall_def emit_def split: option.splits)

lemma quiet_on_connectionstatechange: "quiet s (on_connectionstatechange st s)"
proof (cases "peerConnection s")
  case None
  then show ?thesis by (simp add: on_connectionstatechange_def quiet_refl)
next
  case (Some p)
  let ?s1 = "s\<lparr>peerConnection := Some (p\<lparr>connectionState := st\<rparr>)\<rparr>"
  let ?s2 = "set_agent_status ([0xD83D, 0xDD34] @ js '' Disconnected'') ?s1"
  have a: "quiet s ?s1" "quiet s ?s2"
    by (simp_all add: quiet_def set_agent_status_def split: option.splits)
  have b: "quiet s (endWebRTCCall ?s2)"
    by (rule quiet_trans [OF a(2) quiet_endWebRTCCall])
  have c: "quiet s (startTransferSpeechRecognition (pc_session p) (pc_agent p)
               (showToast (js ''Voice call connected!'') Success
                  (set_agent_status ([0xD83D, 0xDFE2] @ js '' Connected'') ?s1)))"
    by (simp add: quiet_def startTransferSpeechRecognition_def showToast_def
        set_agent_status_def split: option.splits)
  from Some a b c show ?thesis
    by (auto simp: on_connectionstatechange_def Let_def)
qed

lemma quiet_on_icecandidate: "quiet s (on_icecandidate c s)"
  by (simp add: quiet_def on_icecandidate_def emit_def split: option.splits)


lemma quiet_flush_loop: "quiet s (flush_loop tid a i s)"
  by (simp add: quiet_def flush_loop_def reset_pending_def suspend_def addIceCandidate_def
      split: option.splits)

lemma quiet_webrtc_error: "quiet s (webrtc_error m s)"
  by (simp add: quiet_def webrtc_error_def showToast_def)

lemma quiet_resume:
  assumes "t \<noteq> StartMic"
  shows "quiet s (resume tid t out s)"
proof (cases t)
  case StartMic
  with assms show ?thesis by simp
next
  case (WebRTCMic a sid)
  then show ?thesis
    by (simp add: quiet_def resume_def resume_WebRTCMic_def Let_def suspend_def
        webrtc_error_def showToast_def split: outcome.splits)
next
  case (CreateOffer a sid)
  then show ?thesis
    by (simp add: quiet_def resume_def resume_CreateOffer_def suspend_def
        webrtc_error_def showToast_def split: outcome.splits option.splits)
next
  case (SetLocal a sid offer pid)
  then show ?thesis
    by (simp add: quiet_def resume_def resume_SetLocal_def Let_def emit_def
        webrtc_error_def showToast_def split: outcome.splits option.splits)
next
  case (SetRemote pid answer)
  have "quiet s s'" if "quiet s s1" "s' = flush_loop tid (pendingIceCandidates s1) 0 s1 \<or> s' = s1"
    for s1 s'
    using that quiet_flush_loop [of s1 tid "pendingIceCandidates s1" 0]
    by (auto intro: quiet_trans)
  moreover have "quiet s (case peerConnection s of None \<Rightarrow> s
       | Some p \<Rightarrow> if pc_id p = pid
           then s\<lparr>peerConnection := Some (p\<lparr>remoteDescription := Some answer\<rparr>)\<rparr> else s)"
    by (simp add: quiet_def split: option.splits)
  ultimately show ?thesis
    using SetRemote
    by (simp add: resume_def resume_SetRemote_def Let_def quiet_refl split: outcome.splits)
next
  case (Flush a i)
  then show ?thesis
    by (simp add: resume_def quiet_flush_loop)
next
  case RemoveTranscript
  then show ?thesis
    by (simp add: resume_def quiet_def)
qed

lemma quiet_settle:
  assumes "tasks s t \<noteq> Some StartMic"
  shows "quiet s (settle t out s)"
proof (cases "tasks s t")
  case None
  then show ?thesis by (simp add: settle_def quiet_refl)
next
  case (Some k)
  with assms have k: "k \<noteq> StartMic" by simp
  have "quiet s (s\<lparr>tasks := (tasks s)(t := None)\<rparr>)"
    by (simp add: quiet_def)
  from this quiet_resume [OF k] have "quiet s (resume t k out (s\<lparr>tasks := (tasks s)(t := None)\<rparr>))"
    by (rule quiet_trans)
  with Some show ?thesis by (simp add: settle_def)
qed

lemma quiet_handle:
  assumes "e \<noteq> On_connect"
  shows "quiet s (handle e s)"
proof (cases e)
  case On_connect
  with assms show ?thesis by simp
next
  case On_disconnect
  then show ?thesis
    by (simp add: on_disconnect_def quiet_def showToast_def cleanupVoiceCall_def)
next
  case (On_call_started greeting)
  then show ?thesis
    by (simp add: on_call_started_def quiet_def Let_def showToast_def
        initSpeechRecognition_def addVoiceTranscript_def)
next
  case (On_agent_response tx)
  then show ?thesis
    by (simp add: on_agent_response_def quiet_def addVoiceTranscript_def)
next
  case (On_transfer_call sid reason message now)
  then show ?thesis
    by (simp add: on_transfer_call_def quiet_def Let_def showToast_def emit_def
        set_agent_status_def showTransferTranscript_def split: option.splits)
next
  case (On_agent_ready_for_call agent_id agent_sid sid)
  then show ?thesis
    by (simp add: on_agent_ready_for_call_def quiet_def Let_def showToast_def
        set_agent_status_def startWebRTCCall_def spawn_def split: option.splits)
next
  case (On_webrtc_answer answer)
  then show ?thesis
    by (simp add: on_webrtc_answer_def quiet_def spawn_def split: option.splits)
next
  case (On_webrtc_ice_candidate c)
  then show ?thesis
    by (simp add: on_webrtc_ice_candidate_def quiet_def push_pending_def addIceCandidate_def
        split: option.splits)
next
  case On_webrtc_hangup
  have "quiet s (showToast (js ''Agent ended the call'') Info (endWebRTCCall s))"
    using quiet_endWebRTCCall [of s] by (simp add: quiet_def showToast_def)
  with On_webrtc_hangup show ?thesis
    by (simp add: on_webrtc_hangup_def quiet_endWebRTCCall)
next
  case (On_call_transcript sp tx)
  then show ?thesis
    by (simp add: on_call_transcript_def quiet_def addTransferTranscriptEntry_def
        split: option.splits)
next
  case (On_call_ended d)
  then show ?thesis
    by (simp add: on_call_ended_def quiet_def showToast_def cleanupVoiceCall_def)
next
  case (On_error m)
  then show ?thesis
    by (simp add: on_error_def quiet_def showToast_def)
next
  case (On_no_agents_available m)
  then show ?thesis
    by (simp add: on_no_agents_available_def quiet_def showToast_def set_agent_status_def
        split: option.splits)
qed

lemma quiet_deliver:
  assumes "e \<noteq> On_connect"
  shows "quiet s (deliver e s)"
proof (cases "voiceSocket s")
  case None
  then show ?thesis by (simp add: deliver_def quiet_refl)
next
  case (Some sock)
  have a: "quiet s (s\<lparr>voiceSocket := Some (sock\<lparr>connected := False\<rparr>)\<rparr>)"
    using Some by (simp add: quiet_def)
  from a quiet_handle [OF assms] have "quiet s (handle e (s\<lparr>voiceSocket := Some (sock\<lparr>connected := False\<rparr>)\<rparr>))"
    by (rule quiet_trans)
  with Some assms quiet_handle [OF assms, of s] show ?thesis
    by (auto simp: deliver_def quiet_refl)
qed


lemma checks_passed_snoc:
  "checks_passed (evs @ [e]) n p \<longleftrightarrow> checks_passed evs n p \<or> valid_click n p e"
  by (auto simp: checks_passed_def list_ex_iff)

lemma mic_granted_snoc:
  "mic_granted s (evs @ [e]) \<longleftrightarrow> mic_granted s evs \<or> grants_microphone (run evs s) e"
  by (induction evs arbitrary: s) (simp_all add: run_def)

lemma run_snoc: "run (evs @ [e]) s = step e (run evs s)"
  by (simp add: run_def)

lemma start_inv_quiet:
  assumes "start_inv s0 evs s" "run evs s0 = s" "quiet s s'"
  shows "start_inv s0 (evs @ [e]) s'"
  using assms
  unfolding start_inv_def quiet_def checks_passed_snoc mic_granted_snoc
  by metis

lemma start_inv_step:
  assumes inv: "start_inv s0 evs s" and run: "run evs s0 = s"
  shows "start_inv s0 (evs @ [e]) (step e s)"
proof (cases e)
  case (Click_start nv pv)
  show ?thesis
  proof (cases "trim nv \<noteq> [] \<and> trim pv \<noteq> [] \<and> 10 \<le> length pv")
    case False
    then have "quiet s (step e s)"
      by (auto simp: Click_start startVoiceCall_def quiet_def showToast_def)
    with inv run show ?thesis by (rule start_inv_quiet)
  next
    case True
    then have v: "valid_click (trim nv) (trim pv) e"
      by (simp add: Click_start)
    from True have st: "voiceUserName (step e s) = trim nv" "voiceUserPhone (step e s) = trim pv"
      "voiceSocket (step e s) = voiceSocket s" "emitted (step e s) = emitted s"
      by (simp_all add: Click_start startVoiceCall_def Let_def spawn_def)
    from inv v show ?thesis
      unfolding start_inv_def checks_passed_snoc mic_granted_snoc st
      by blast
  qed
next
  case Click_end
  with inv run quiet_endVoiceCall [of s] show ?thesis
    by (simp add: start_inv_quiet)
next
  case Click_mute
  with inv run quiet_toggleVoiceMute [of s] show ?thesis
    by (simp add: start_inv_quiet)
next
  case Click_end_webrtc
  have "quiet s (step Click_end_webrtc s)"
    by (simp add: quiet_refl quiet_endWebRTCCall)
  with inv run Click_end_webrtc show ?thesis
    by (simp add: start_inv_quiet)
next
  case (Settle t out)
  show ?thesis
  proof (cases "tasks s t = Some StartMic")
    case False
    then have "quiet s (step e s)"
      by (simp add: Settle quiet_settle)
    with inv run show ?thesis by (rule start_inv_quiet)
  next
    case mic: True
    show ?thesis
    proof (cases out)
      case (Rejected m)
      with mic have "quiet s (step e s)"
        by (simp add: Settle settle_def resume_def resume_StartMic_def quiet_def showToast_def)
      with inv run show ?thesis by (rule start_inv_quiet)
    next
      case (Resolved v)
      with mic run have g: "grants_microphone (run evs s0) e"
        by (simp add: Settle)
      from mic Resolved have st: "voiceUserName (step e s) = voiceUserName s"
        "voiceUserPhone (step e s) = voiceUserPhone s" "emitted (step e s) = emitted s"
        "\<And>t'. tasks (step e s) t' = Some StartMic \<Longrightarrow> tasks s t' = Some StartMic"
        by (simp_all add: Settle settle_def resume_def resume_StartMic_def initVoiceCall_def
            split: if_splits)
      from inv mic g show ?thesis
        unfolding start_inv_def checks_passed_snoc mic_granted_snoc st(1-3)
        using st(4) by blast
    qed
  qed
next
  case (Socket se)
  show ?thesis
  proof (cases "se = On_connect")
    case False
    then have "quiet s (step e s)"
      by (simp add: Socket quiet_deliver)
    with inv run show ?thesis by (rule start_inv_quiet)
  next
    case True
    show ?thesis
    proof (cases "voiceSocket s")
      case None
      then have "quiet s (step e s)"
        by (simp add: Socket True deliver_def quiet_refl)
      with inv run show ?thesis by (rule start_inv_quiet)
    next
      case (Some sock)
      then have st: "voiceUserName (step e s) = voiceUserName s"
        "voiceUserPhone (step e s) = voiceUserPhone s"
        "emitted (step e s) = emitted s @ [Start_call (voiceUserName s) (voiceUserPhone s)]"
        "tasks (step e s) = tasks s"
        by (simp_all add: Socket True deliver_def on_connect_def emit_def)
      from inv Some show ?thesis
        unfolding start_inv_def checks_passed_snoc mic_granted_snoc st
        by auto
    qed
  qed
next
  case (Voice_result rs i)
  with inv run quiet_voice_onresult [of s rs i] show ?thesis
    by (simp add: start_inv_quiet)
next
  case (Transfer_result rs i)
  with inv run quiet_transfer_onresult [of s rs i] show ?thesis
    by (simp add: start_inv_quiet)
next
  case (Pc_state st)
  with inv run quiet_on_connectionstatechange [of s st] show ?thesis
    by (simp add: start_inv_quiet)
next
  case (Pc_icecandidate c)
  with inv run quiet_on_icecandidate [of s c] show ?thesis
    by (simp add: start_inv_quiet)
qed

lemma start_inv_run:
  assumes "voiceSocket s0 = None" "\<forall>n p. Start_call n p \<notin> set (emitted s0)"
    "\<forall>t. tasks s0 t \<noteq> Some StartMic"
  shows "start_inv s0 evs (run evs s0)"
proof (induction evs rule: rev_induct)
  case Nil
  from assms show ?case by (simp add: start_inv_def run_def)
next
  case (snoc e evs)
  from start_inv_step [OF snoc.IH refl, of e] show ?case
    by (simp add: run_snoc)
qed


text \<open>
  C10.  Whatever happens to a freshly loaded page, in any browser: a \<^verbatim>\<open>start_call\<close>
  that it has emitted carries the trimmed name and phone of a click on Start whose
  inputs passed the checks (name not blank, phone not blank and at least 10 characters
  as entered), and the microphone request of \<^verbatim>\<open>startVoiceCall\<close> was granted earlier in the
  run; the same holds as soon as the page has a socket.  A click whose inputs fail a
  check requests no microphone, creates no socket and emits nothing, and so does a
  denied microphone request.
\<close>

theorem start_call_only_after_checks:
  "(Start_call name phone \<in> set (emitted (run evs (page_loaded media speech))) \<longrightarrow>
      checks_passed evs name phone \<and> mic_granted (page_loaded media speech) evs) \<and>
   (voiceSocket (run evs (page_loaded media speech)) \<noteq> None \<longrightarrow>
      checks_passed evs (voiceUserName (run evs (page_loaded media speech)))
        (voiceUserPhone (run evs (page_loaded media speech))) \<and>
      mic_granted (page_loaded media speech) evs) \<and>
   (\<not> (trim name_value \<noteq> [] \<and> trim phone_value \<noteq> [] \<and> 10 \<le> length phone_value) \<longrightarrow>
      tasks (startVoiceCall name_value phone_value s) = tasks s \<and>
      voiceSocket (startVoiceCall name_value phone_value s) = voiceSocket s \<and>
      emitted (startVoiceCall name_value phone_value s) = emitted s) \<and>
   voiceSocket (resume_StartMic (Rejected m) s) = voiceSocket s \<and>
   emitted (resume_StartMic (Rejected m) s) = emitted s"
proof -
  have "start_inv (page_loaded media speech) evs (run evs (page_loaded media speech))"
    by (rule start_inv_run) (simp_all add: page_loaded_def)
  then have a: "Start_call name phone \<in> set (emitted (run evs (page_loaded media speech))) \<longrightarrow>
      checks_passed evs name phone \<and> mic_granted (page_loaded media speech) evs"
    and b: "voiceSocket (run evs (page_loaded media speech)) \<noteq> None \<longrightarrow>
      checks_passed evs (voiceUserName (run evs (page_loaded media speech)))
        (voiceUserPhone (run evs (page_loaded media speech))) \<and>
      mic_granted (page_loaded media speech) evs"
    unfolding start_inv_def by blast+
  have c: "\<not> (trim name_value \<noteq> [] \<and> trim phone_value \<noteq> [] \<and> 10 \<le> length phone_value) \<longrightarrow>
      tasks (startVoiceCall name_value phone_value s) = tasks s \<and>
      voiceSocket (startVoiceCall name_value phone_value s) = voiceSocket s \<and>
      emitted (startVoiceCall name_value phone_value s) = emitted s"
    by (auto simp: startVoiceCall_def showToast_def)
  have d: "voiceSocket (resume_StartMic (Rejected m) s) = voiceSocket s"
    "emitted (resume_StartMic (Rejected m) s) = emitted s"
    by (simp_all add: resume_StartMic_def showToast_def)
  from a b c d show ?thesis
    by (intro conjI)
qed

theorem start_call_only_after_checks_witness:
  "Start_call (js ''Asha'') (js ''9876543210'') \<in>
     set (emitted (run ai_call_events (page_loaded True True))) \<and>
   checks_passed ai_call_events (js ''Asha'') (js ''9876543210'') \<and>
   mic_granted (page_loaded True True) ai_call_events \<and>
   trim (js ''   '') = [] \<and>
   voiceSocket (startVoiceCall (js ''   '') (js ''9876543210'') (page_loaded True True)) = None \<and>
   emitted (startVoiceCall (js ''   '') (js ''9876543210'') (page_loaded True True)) = [] \<and>
   length (js ''98765'') < 10 \<and>
   voiceSocket (startVoiceCall (js ''Asha'') (js ''98765'') (page_loaded True True)) = None \<and>
   emitted (startVoiceCall (js ''Asha'') (js ''98765'') (page_loaded True True)) = []"
proof -
  have m: "Start_call (js ''Asha'') (js ''9876543210'') \<in>
     set (emitted (run ai_call_events (page_loaded True True)))"
    using in_ai_call_fields(5) by (simp add: in_ai_call_def)
  note t1 = start_call_only_after_checks [of "js ''Asha''" "js ''9876543210''" ai_call_events
      True True, THEN conjunct1, THEN mp, OF m]
  have blank: "trim (js ''   '') = []"
    by (simp add: string_defs)
  have short: "length (js ''98765'') < 10"
    by (simp add: js_def)
  have i1: "\<not> (trim (js ''   '') \<noteq> [] \<and> trim (js ''9876543210'') \<noteq> [] \<and>
      10 \<le> length (js ''9876543210''))"
    by (simp add: blank)
  have i2: "\<not> (trim (js ''Asha'') \<noteq> [] \<and> trim (js ''98765'') \<noteq> [] \<and>
      10 \<le> length (js ''98765''))"
    using short by simp
  note t2 = start_call_only_after_checks [of _ _ "[]" True True "js ''   ''"
      "js ''9876543210''" "page_loaded True True",
      THEN conjunct2, THEN conjunct2, THEN conjunct1, THEN mp, OF i1]
  note t3 = start_call_only_after_checks [of _ _ "[]" True True "js ''Asha''"
      "js ''98765''" "page_loaded True True",
      THEN conjunct2, THEN conjunct2, THEN conjunct1, THEN mp, OF i2]
  have p: "voiceSocket (page_loaded True True) = None" "emitted (page_loaded True True) = []"
    by (simp_all add: page_loaded_def)
  from m t1 blank short t2 t3 show ?thesis
    by (simp only: p simp_thms)
qed

end
